theory Spec2Isabelle
  imports Main "HOL-Library.Sublist"
begin

text \<open>
  The compliance engine of the esbuild license compliance plugin, \<^verbatim>\<open>src/lib.ts\<close>: the
  ignore patterns (\<^verbatim>\<open>isIgnored\<close>), the license expressions (\<^verbatim>\<open>parseLicenseExpression\<close>),
  the policy evaluator (\<^verbatim>\<open>isLicenseAllowed\<close>) and the loop over the packages
  (\<^verbatim>\<open>checkLicenseCompliance\<close>), followed by the properties that the specification states
  about them.
\<close>

section \<open>Strings\<close>

text \<open>
  A JavaScript string is a sequence of UTF-16 code units. A string is embedded as a
  \<^typ>\<open>string\<close>, the character with code \<open>n\<close> standing for the code unit \<open>n\<close>
  (U+0000 to U+00FF), so every statement below ranges over the strings whose code units
  are below 256. On that range the built-ins used by \<^verbatim>\<open>src/lib.ts\<close> are as follows.

  \<^item> \<^verbatim>\<open>\s\<close> and \<^verbatim>\<open>trim\<close> use the same set of white space and line terminators:
    U+0009 to U+000D, U+0020 and U+00A0.
  \<^item> \<^verbatim>\<open>.\<close> in a regular expression without the \<^verbatim>\<open>s\<close> flag matches every code unit
    except the line terminators U+000A and U+000D.
  \<^item> \<^verbatim>\<open>toLowerCase\<close> adds 32 to A-Z, U+00C0 to U+00D6 and U+00D8 to U+00DE and leaves
    every other code unit as it is. Adding 32 to one of these sets bit 5.
\<close>

definition isLineTerminator :: "char \<Rightarrow> bool" where
  "isLineTerminator c = (c = CHR 0x0A \<or> c = CHR 0x0D)"

definition isWhiteSpace :: "char \<Rightarrow> bool" where
  "isWhiteSpace c =
     (c = CHR 0x09 \<or> c = CHR 0x0A \<or> c = CHR 0x0B \<or> c = CHR 0x0C \<or> c = CHR 0x0D \<or>
      c = CHR 0x20 \<or> c = CHR 0xA0)"

definition isUpperCase :: "char \<Rightarrow> bool" where
  "isUpperCase c =
     (let n = (of_char c :: nat)
      in (65 \<le> n \<and> n \<le> 90) \<or> (192 \<le> n \<and> n \<le> 214) \<or> (216 \<le> n \<and> n \<le> 222))"

definition toLowerChar :: "char \<Rightarrow> char" where
  "toLowerChar c =
     (if isUpperCase c
      then (case c of Char b0 b1 b2 b3 b4 b5 b6 b7 \<Rightarrow> Char b0 b1 b2 b3 b4 True b6 b7)
      else c)"

definition toLowerCase :: "string \<Rightarrow> string" where
  "toLowerCase s = map toLowerChar s"

definition trim :: "string \<Rightarrow> string" where
  "trim s = rev (dropWhile isWhiteSpace (rev (dropWhile isWhiteSpace s)))"

text \<open>\<^verbatim>\<open>s.includes(t)\<close>: \<open>t\<close> occurs in \<open>s\<close> as a contiguous run.\<close>

fun includesStr :: "string \<Rightarrow> string \<Rightarrow> bool" where
  "includesStr [] t = (t = [])"
| "includesStr (c # cs) t = (prefix t (c # cs) \<or> includesStr cs t)"

text \<open>\<^verbatim>\<open>xs.join(sep)\<close>.\<close>

fun join :: "string \<Rightarrow> string list \<Rightarrow> string" where
  "join sep [] = []"
| "join sep [x] = x"
| "join sep (x # y # ys) = x @ sep @ join sep (y # ys)"

definition apostrophe :: "char" where
  "apostrophe = CHR 0x27"

section \<open>Failures\<close>

text \<open>
  The exceptions that the engine can meet: the \<open>SyntaxError\<close> of the \<^verbatim>\<open>RegExp\<close>
  constructor, on an ignore pattern, and the \<open>TypeError\<close> of the call
  \<^verbatim>\<open>licenseExpression.split(...)\<close> on a license that is no string.
\<close>

datatype failure = SyntaxError | TypeError

section \<open>Data model\<close>

record LicenseComplianceOptions =
  allowed :: "string list option"
  disallowed :: "string list option"
  ignores :: "string list option"

text \<open>
  The field \<^verbatim>\<open>license\<close> of a package is declared a string, and nothing checks it:
  \<^verbatim>\<open>extractLicense\<close> hands on any truthy \<^verbatim>\<open>license\<close> of a manifest through a cast, and a
  manifest of the legacy form has an object with \<^verbatim>\<open>type\<close> and \<^verbatim>\<open>url\<close> there. So the value
  that reaches the engine is a string or some other value. The engine compares it with
  the sentinel by \<^verbatim>\<open>===\<close> and calls \<^verbatim>\<open>split\<close> on it: on a value that is no string the
  comparison is false and \<^verbatim>\<open>split\<close> is no function. The names come from \<^verbatim>\<open>Object.keys\<close>
  and are strings.
\<close>

datatype jsvalue = JString string | NonString

record PackageInfo =
  name :: string
  version :: string
  license :: jsvalue
  path :: string

text \<open>
  The fields \<^verbatim>\<open>license\<close> and \<^verbatim>\<open>reason\<close> of a violation are \<open>vlicense\<close> and \<open>vreason\<close>
  here, since \<open>license\<close> is the field of a package.
\<close>

record LicenseViolation =
  package :: string
  vlicense :: string
  vreason :: string

text \<open>The object that \<^verbatim>\<open>isLicenseAllowed\<close> returns; \<open>is_allowed\<close> is its field \<^verbatim>\<open>allowed\<close>.\<close>

record LicenseCheck =
  is_allowed :: bool
  reason :: "string option"

section \<open>Ignore patterns: \<^verbatim>\<open>isIgnored\<close>\<close>

subsection \<open>From a glob pattern to the source of a regular expression\<close>

text \<open>\<^verbatim>\<open>.replace(/\*/g, ".*")\<close> and \<^verbatim>\<open>.replace(/\?/g, ".")\<close>.\<close>

definition replaceStar :: "string \<Rightarrow> string" where
  "replaceStar s = concat (map (\<lambda>c. if c = CHR ''*'' then ''.*'' else [c]) s)"

definition replaceQuestion :: "string \<Rightarrow> string" where
  "replaceQuestion s = concat (map (\<lambda>c. if c = CHR ''?'' then ''.'' else [c]) s)"

text \<open>
  \<^verbatim>\<open>/\[([^\]]+)\]/\<close> at the head of a string: an opening bracket, the longest run of
  characters other than the closing bracket, which must not be empty, and a closing
  bracket. A shorter run is followed by a character other than the closing bracket, so
  backtracking finds nothing more. The result is the group and the rest of the string.
\<close>

definition matchBracketGroup :: "string \<Rightarrow> (string \<times> string) option" where
  "matchBracketGroup s =
     (case s of
        [] \<Rightarrow> None
      | c # cs \<Rightarrow>
          if c = CHR ''[''
          then (let grp = takeWhile (\<lambda>x. x \<noteq> CHR '']'') cs;
                    rest = dropWhile (\<lambda>x. x \<noteq> CHR '']'') cs
                in if grp \<noteq> [] \<and> rest \<noteq> [] then Some (grp, tl rest) else None)
          else None)"

lemma matchBracketGroup_shorter:
  "matchBracketGroup s = Some (grp, rest) \<Longrightarrow> length rest < length s"
proof -
  assume m: "matchBracketGroup s = Some (grp, rest)"
  then obtain c cs where s: "s = c # cs"
    by (cases s) (simp_all add: matchBracketGroup_def)
  from m s have "rest = tl (dropWhile (\<lambda>x. x \<noteq> CHR '']'') cs)"
    by (simp add: matchBracketGroup_def Let_def split: if_splits)
  moreover have "length (dropWhile (\<lambda>x. x \<noteq> CHR '']'') cs) \<le> length cs"
    by (rule length_dropWhile_le)
  ultimately show ?thesis using s by simp
qed

text \<open>\<^verbatim>\<open>.replace(/\[([^\]]+)\]/g, "[$1]")\<close>: every match, from the left, becomes its group in brackets.\<close>

function replaceBracketGroups :: "string \<Rightarrow> string" where
  "replaceBracketGroups [] = []"
| "replaceBracketGroups (c # cs) =
     (case matchBracketGroup (c # cs) of
        Some (grp, rest) \<Rightarrow> ''['' @ grp @ '']'' @ replaceBracketGroups rest
      | None \<Rightarrow> c # replaceBracketGroups cs)"
  by pat_completeness auto
termination
  by (relation "measure length") (auto dest: matchBracketGroup_shorter)

text \<open>The template \<^verbatim>\<open>`^${regexPattern}$`\<close>.\<close>

definition regexSource :: "string \<Rightarrow> string" where
  "regexSource pattern =
     ''^'' @ replaceBracketGroups (replaceQuestion (replaceStar pattern)) @ ''$''"

subsection \<open>The regular expressions that are interpreted\<close>

text \<open>
  \<^verbatim>\<open>new RegExp(source)\<close>, without flags, is interpreted on the sources made of
  \<^item> the assertions \<^verbatim>\<open>^\<close> and \<^verbatim>\<open>$\<close>,
  \<^item> the atoms \<^verbatim>\<open>.\<close>, a character that is not a syntax character, and a backslash followed
    by a syntax character (an identity escape),
  \<^item> an atom followed by \<^verbatim>\<open>*\<close> or \<^verbatim>\<open>+\<close>.

  A \<^verbatim>\<open>*\<close> or \<^verbatim>\<open>+\<close> in the place of a term (at the start, after an assertion or after a
  quantifier) has nothing to repeat, and a backslash may not end the source: both are
  \<open>Invalid\<close>, a \<open>SyntaxError\<close> of the constructor. Groups, alternatives, character
  classes, braces, \<^verbatim>\<open>?\<close> and the other escapes are \<open>Uninterpreted\<close>: what the constructor
  does with such a source is a parameter of the embedding, of type \<open>engine\<close>, which
  gives for each source either a \<open>SyntaxError\<close> or the \<^verbatim>\<open>test\<close> method of the compiled
  expression. Every statement below with a free \<open>ext\<close> holds for every such engine.
\<close>

datatype parse_failure = Invalid | Uninterpreted

type_synonym regexp = "string \<Rightarrow> bool"

type_synonym engine = "string \<Rightarrow> failure + regexp"

datatype atom = Lit char | AnyChar

datatype rterm = Bol | Eol | Once atom | Star atom | Plus atom

definition backslash :: "char" where
  "backslash = CHR 0x5C"

definition isSyntaxCharacter :: "char \<Rightarrow> bool" where
  "isSyntaxCharacter c =
     (c = CHR ''^'' \<or> c = CHR ''$'' \<or> c = backslash \<or> c = CHR ''.'' \<or> c = CHR ''*'' \<or>
      c = CHR ''+'' \<or> c = CHR ''?'' \<or> c = CHR ''('' \<or> c = CHR '')'' \<or> c = CHR ''['' \<or>
      c = CHR '']'' \<or> c = CHR ''{'' \<or> c = CHR ''}'' \<or> c = CHR ''|'')"

definition andThen :: "rterm \<Rightarrow> parse_failure + rterm list \<Rightarrow> parse_failure + rterm list" where
  "andThen t r = (case r of Inl e \<Rightarrow> Inl e | Inr ts \<Rightarrow> Inr (t # ts))"

function parseTerms :: "string \<Rightarrow> parse_failure + rterm list"
  and parseQuantifier :: "atom \<Rightarrow> string \<Rightarrow> parse_failure + rterm list" where
  "parseTerms [] = Inr []"
| "parseTerms (c # cs) =
     (if c = CHR ''^'' then andThen Bol (parseTerms cs)
      else if c = CHR ''$'' then andThen Eol (parseTerms cs)
      else if c = CHR ''*'' \<or> c = CHR ''+'' then Inl Invalid
      else if c = backslash
      then (case cs of
              [] \<Rightarrow> Inl Invalid
            | e # cs' \<Rightarrow> if isSyntaxCharacter e then parseQuantifier (Lit e) cs' else Inl Uninterpreted)
      else if c = CHR ''.'' then parseQuantifier AnyChar cs
      else if isSyntaxCharacter c then Inl Uninterpreted
      else parseQuantifier (Lit c) cs)"
| "parseQuantifier a [] = Inr [Once a]"
| "parseQuantifier a (q # cs) =
     (if q = CHR ''*'' then andThen (Star a) (parseTerms cs)
      else if q = CHR ''+'' then andThen (Plus a) (parseTerms cs)
      else andThen (Once a) (parseTerms (q # cs)))"
  by pat_completeness auto
termination
  by (relation "measure (\<lambda>x. case x of Inl cs \<Rightarrow> 2 * length cs | Inr (a, cs) \<Rightarrow> 2 * length cs + 1)")
    auto

text \<open>
  An engine that rejects every source it is asked about, for the closed statements,
  whose sources are all interpreted.
\<close>

definition noOtherSyntax :: engine where
  "noOtherSyntax source = Inl SyntaxError"

definition atomMatches :: "atom \<Rightarrow> char \<Rightarrow> bool" where
  "atomMatches a c = (case a of Lit x \<Rightarrow> c = x | AnyChar \<Rightarrow> \<not> isLineTerminator c)"

text \<open>
  The backtracking matcher: \<open>matchTerms ts atStart s\<close> says whether the terms match a
  prefix of \<open>s\<close>, the rest of the input at the current position; \<open>atStart\<close> says that the
  position is 0. Without the \<^verbatim>\<open>m\<close> flag \<^verbatim>\<open>^\<close> holds at position 0 only and \<^verbatim>\<open>$\<close> at the end
  of the input only.
\<close>

fun matchTerms :: "rterm list \<Rightarrow> bool \<Rightarrow> string \<Rightarrow> bool" where
  "matchTerms [] atStart s = True"
| "matchTerms (Bol # ts) atStart s = (atStart \<and> matchTerms ts atStart s)"
| "matchTerms (Eol # ts) atStart s = (s = [] \<and> matchTerms ts atStart s)"
| "matchTerms (Once a # ts) atStart [] = False"
| "matchTerms (Once a # ts) atStart (c # cs) = (atomMatches a c \<and> matchTerms ts False cs)"
| "matchTerms (Star a # ts) atStart [] = matchTerms ts atStart []"
| "matchTerms (Star a # ts) atStart (c # cs) =
     ((atomMatches a c \<and> matchTerms (Star a # ts) False cs) \<or> matchTerms ts atStart (c # cs))"
| "matchTerms (Plus a # ts) atStart [] = False"
| "matchTerms (Plus a # ts) atStart (c # cs) =
     (atomMatches a c \<and> matchTerms (Star a # ts) False cs)"

text \<open>
  \<^verbatim>\<open>regex.test(s)\<close> of a fresh expression without the \<^verbatim>\<open>g\<close> and \<^verbatim>\<open>y\<close> flags: the match is
  tried at position 0, then at each later position up to the end of the input.
\<close>

fun searchFrom :: "rterm list \<Rightarrow> bool \<Rightarrow> string \<Rightarrow> bool" where
  "searchFrom ts atStart [] = matchTerms ts atStart []"
| "searchFrom ts atStart (c # cs) = (matchTerms ts atStart (c # cs) \<or> searchFrom ts False cs)"

definition RegExp_test :: "regexp \<Rightarrow> string \<Rightarrow> bool" where
  "RegExp_test regex s = regex s"

text \<open>\<^verbatim>\<open>new RegExp(source)\<close>: the compiled expression is represented by its \<^verbatim>\<open>test\<close> method.\<close>

definition RegExp_new :: "engine \<Rightarrow> string \<Rightarrow> failure + regexp" where
  "RegExp_new ext source =
     (case parseTerms source of
        Inr ts \<Rightarrow> Inr (\<lambda>s. searchFrom ts True s)
      | Inl Invalid \<Rightarrow> Inl SyntaxError
      | Inl Uninterpreted \<Rightarrow> ext source)"

text \<open>
  \<^verbatim>\<open>ignores.some(...)\<close>: the patterns are tried from the left, the first one that matches
  ends the search, and a pattern that does not compile throws when its turn comes.
\<close>

fun isIgnored :: "engine \<Rightarrow> string \<Rightarrow> string list \<Rightarrow> failure + bool" where
  "isIgnored ext packageName [] = Inr False"
| "isIgnored ext packageName (pattern # rest) =
     (case RegExp_new ext (regexSource pattern) of
        Inl e \<Rightarrow> Inl e
      | Inr regex \<Rightarrow>
          if RegExp_test regex packageName then Inr True else isIgnored ext packageName rest)"

section \<open>License expressions: \<^verbatim>\<open>parseLicenseExpression\<close>\<close>

text \<open>
  \<^verbatim>\<open>/\s+(?:OR)\s+/i\<close> at the head of a string: the longest run of white space, which must
  not be empty, then O and R in either case, then the longest run of white space, which
  must not be empty. A shorter first run is followed by white space and not by O, so
  backtracking finds nothing more. The result is the rest of the string after the match.
\<close>

definition matchSeparator :: "string \<Rightarrow> string option" where
  "matchSeparator s =
     (if takeWhile isWhiteSpace s = [] then None
      else (case dropWhile isWhiteSpace s of
              c1 # c2 # rest \<Rightarrow>
                if (c1 = CHR ''O'' \<or> c1 = CHR ''o'') \<and> (c2 = CHR ''R'' \<or> c2 = CHR ''r'') \<and>
                   takeWhile isWhiteSpace rest \<noteq> []
                then Some (dropWhile isWhiteSpace rest)
                else None
            | _ \<Rightarrow> None))"

text \<open>
  The scan of \<^verbatim>\<open>split\<close>: the first position at which the separator matches; the result is
  the text before that position and the text after the match.
\<close>

fun findSeparator :: "string \<Rightarrow> (string \<times> string) option" where
  "findSeparator [] = None"
| "findSeparator (c # cs) =
     (case matchSeparator (c # cs) of
        Some rest \<Rightarrow> Some ([], rest)
      | None \<Rightarrow> (case findSeparator cs of
                   None \<Rightarrow> None
                 | Some (seg, rest) \<Rightarrow> Some (c # seg, rest)))"

lemma matchSeparator_shorter: "matchSeparator s = Some rest \<Longrightarrow> length rest < length s"
proof -
  assume m: "matchSeparator s = Some rest"
  then obtain c1 c2 r where d: "dropWhile isWhiteSpace s = c1 # c2 # r"
    and rest: "rest = dropWhile isWhiteSpace r"
    by (auto simp: matchSeparator_def split: if_splits list.splits)
  have "length rest \<le> length r"
    unfolding rest by (rule length_dropWhile_le)
  moreover have "length (dropWhile isWhiteSpace s) \<le> length s"
    by (rule length_dropWhile_le)
  ultimately show ?thesis using d by simp
qed

lemma findSeparator_shorter: "findSeparator s = Some (seg, rest) \<Longrightarrow> length rest < length s"
proof (induction s arbitrary: seg)
  case Nil
  then show ?case by simp
next
  case (Cons c cs)
  then show ?case
    by (fastforce split: option.splits dest: matchSeparator_shorter)
qed

text \<open>\<^verbatim>\<open>licenseExpression.split(/\s+(?:OR)\s+/i)\<close>.\<close>

function split_OR :: "string \<Rightarrow> string list" where
  "split_OR s =
     (case findSeparator s of
        None \<Rightarrow> [s]
      | Some (seg, rest) \<Rightarrow> seg # split_OR rest)"
  by pat_completeness auto
termination
  by (relation "measure length") (auto dest: findSeparator_shorter)

declare split_OR.simps [simp del]

definition parseLicenseExpression :: "string \<Rightarrow> string list" where
  "parseLicenseExpression licenseExpression =
     filter (\<lambda>l. length l > 0) (map trim (split_OR licenseExpression))"

section \<open>The policy evaluator: \<^verbatim>\<open>isLicenseAllowed\<close>\<close>

text \<open>
  \<^verbatim>\<open>ids.some((d) => lowerLicense.includes(d.toLowerCase()))\<close>, the test that the source
  applies to the disallowed list and to the allowed list.
\<close>

definition matchesAny :: "string \<Rightarrow> string list \<Rightarrow> bool" where
  "matchesAny l ids = list_ex (\<lambda>d. includesStr (toLowerCase l) (toLowerCase d)) ids"

text \<open>
  The two reasons, \<^verbatim>\<open>`License '${license}' is not allowed`\<close> and
  \<^verbatim>\<open>`None of the licenses '${licenses.join(", ")}' are in the allowed list`\<close>.
\<close>

definition denyReason :: "string \<Rightarrow> string" where
  "denyReason l = ''License '' @ [apostrophe] @ l @ [apostrophe] @ '' is not allowed''"

definition allowReason :: "string list \<Rightarrow> string" where
  "allowReason licenses =
     ''None of the licenses '' @ [apostrophe] @ join '', '' licenses @ [apostrophe] @
     '' are in the allowed list''"

text \<open>
  The body of \<^verbatim>\<open>isLicenseAllowed\<close> after the candidates have been parsed: the loop
  returns at the first candidate that matches the disallowed list.
\<close>

definition checkLicenses :: "string list \<Rightarrow> string list \<Rightarrow> string list \<Rightarrow> LicenseCheck" where
  "checkLicenses licenses al dis =
     (case find (\<lambda>l. matchesAny l dis) licenses of
        Some l \<Rightarrow> \<lparr>is_allowed = False, reason = Some (denyReason l)\<rparr>
      | None \<Rightarrow>
          if length al > 0 \<and> \<not> list_ex (\<lambda>l. matchesAny l al) licenses
          then \<lparr>is_allowed = False, reason = Some (allowReason licenses)\<rparr>
          else \<lparr>is_allowed = True, reason = None\<rparr>)"

definition isLicenseAllowed :: "string \<Rightarrow> string list \<Rightarrow> string list \<Rightarrow> LicenseCheck" where
  "isLicenseAllowed lic al dis = checkLicenses (parseLicenseExpression lic) al dis"

section \<open>The engine: \<^verbatim>\<open>checkLicenseCompliance\<close>\<close>

text \<open>
  A run of the engine: the lines written by \<^verbatim>\<open>console.warn\<close>, and either the exception
  that ended the run or the list of violations returned.
\<close>

record check_run =
  console :: "string list"
  completion :: "failure + LicenseViolation list"

text \<open>
  A string used as a condition is true when it is not empty. In the loop,
  \<^verbatim>\<open>isLicenseAllowed\<close> starts with \<^verbatim>\<open>parseLicenseExpression\<close>, whose first action is the call
  of \<^verbatim>\<open>split\<close> on the license: a license that is no string ends the run there with a
  \<open>TypeError\<close>.
\<close>

definition truthy :: "string option \<Rightarrow> bool" where
  "truthy r = (case r of None \<Rightarrow> False | Some s \<Rightarrow> s \<noteq> [])"

fun checkLoop ::
  "engine \<Rightarrow> string list \<Rightarrow> string list \<Rightarrow> string list \<Rightarrow> PackageInfo list \<Rightarrow>
   LicenseViolation list \<Rightarrow> string list \<Rightarrow> check_run" where
  "checkLoop ext al dis ign [] violations out = \<lparr>console = out, completion = Inr violations\<rparr>"
| "checkLoop ext al dis ign (pkg # pkgs) violations out =
     (case isIgnored ext (name pkg) ign of
        Inl e \<Rightarrow> \<lparr>console = out, completion = Inl e\<rparr>
      | Inr True \<Rightarrow> checkLoop ext al dis ign pkgs violations out
      | Inr False \<Rightarrow>
          if license pkg = JString ''UNKNOWN''
          then checkLoop ext al dis ign pkgs violations
                 (out @ [name pkg @ '': No license information found''])
          else (case license pkg of
                  NonString \<Rightarrow> \<lparr>console = out, completion = Inl TypeError\<rparr>
                | JString lic \<Rightarrow>
                    (let licenseCheck = isLicenseAllowed lic al dis
                     in if \<not> is_allowed licenseCheck \<and> truthy (reason licenseCheck)
                        then checkLoop ext al dis ign pkgs
                               (violations @
                                [\<lparr>package = name pkg, vlicense = lic,
                                  vreason = the (reason licenseCheck)\<rparr>])
                               out
                        else checkLoop ext al dis ign pkgs violations out)))"

definition orEmpty :: "string list option \<Rightarrow> string list" where
  "orEmpty x = (case x of None \<Rightarrow> [] | Some xs \<Rightarrow> xs)"

definition checkLicenseCompliance ::
  "engine \<Rightarrow> PackageInfo list \<Rightarrow> LicenseComplianceOptions \<Rightarrow> check_run" where
  "checkLicenseCompliance ext packages options =
     checkLoop ext (orEmpty (allowed options)) (orEmpty (disallowed options))
       (orEmpty (ignores options)) packages [] []"

section \<open>Notions used in the statements\<close>

text \<open>
  The loop goes on after a package when \<^verbatim>\<open>isIgnored\<close> returns for its name and, unless
  the package is ignored, its license is a string. \<open>violationsOf\<close> and \<open>warningsOf\<close> are
  what such a package adds to the run: the violation pushed for it, if any, and the
  warning written for it, if any.
\<close>

definition passes :: "engine \<Rightarrow> string list \<Rightarrow> PackageInfo \<Rightarrow> bool" where
  "passes ext ign pkg =
     (isIgnored ext (name pkg) ign = Inr True \<or>
      (isIgnored ext (name pkg) ign = Inr False \<and> license pkg \<noteq> NonString))"

definition violationsOf ::
  "engine \<Rightarrow> string list \<Rightarrow> string list \<Rightarrow> string list \<Rightarrow> PackageInfo \<Rightarrow>
   LicenseViolation list" where
  "violationsOf ext al dis ign pkg =
     (case license pkg of
        NonString \<Rightarrow> []
      | JString lic \<Rightarrow>
          if isIgnored ext (name pkg) ign = Inr False \<and> lic \<noteq> ''UNKNOWN'' \<and>
             \<not> is_allowed (isLicenseAllowed lic al dis)
          then [\<lparr>package = name pkg, vlicense = lic,
                 vreason = the (reason (isLicenseAllowed lic al dis))\<rparr>]
          else [])"

definition warningsOf :: "engine \<Rightarrow> string list \<Rightarrow> PackageInfo \<Rightarrow> string list" where
  "warningsOf ext ign pkg =
     (if isIgnored ext (name pkg) ign = Inr False \<and> license pkg = JString ''UNKNOWN''
      then [name pkg @ '': No license information found'']
      else [])"

text \<open>
  The glob matcher as the specification words it: the whole name must match the
  pattern, \<^verbatim>\<open>*\<close> stands for zero or more characters, \<^verbatim>\<open>?\<close> for exactly one, and every
  other character of the pattern for itself, with its case.
\<close>

fun globMatches :: "string \<Rightarrow> string \<Rightarrow> bool" where
  "globMatches [] s = (s = [])"
| "globMatches (p # ps) [] = (p = CHR ''*'' \<and> globMatches ps [])"
| "globMatches (p # ps) (c # cs) =
     (if p = CHR ''*'' then globMatches ps (c # cs) \<or> globMatches (p # ps) cs
      else if p = CHR ''?'' then globMatches ps cs
      else p = c \<and> globMatches ps cs)"

text \<open>
  The same matcher with the wild cards of the program: \<^verbatim>\<open>*\<close> and \<^verbatim>\<open>?\<close> stand for characters
  other than line terminators only.
\<close>

fun globMatchesLine :: "string \<Rightarrow> string \<Rightarrow> bool" where
  "globMatchesLine [] s = (s = [])"
| "globMatchesLine (p # ps) [] = (p = CHR ''*'' \<and> globMatchesLine ps [])"
| "globMatchesLine (p # ps) (c # cs) =
     (if p = CHR ''*''
      then globMatchesLine ps (c # cs) \<or> (\<not> isLineTerminator c \<and> globMatchesLine (p # ps) cs)
      else if p = CHR ''?'' then \<not> isLineTerminator c \<and> globMatchesLine ps cs
      else p = c \<and> globMatchesLine ps cs)"

text \<open>
  The patterns made of \<^verbatim>\<open>*\<close>, \<^verbatim>\<open>?\<close> and characters that are no syntax characters of a
  regular expression; \<open>globSource\<close> and \<open>globTerm\<close> are what one character of such a
  pattern becomes in the source and in the compiled expression.
\<close>

definition isGlobPattern :: "string \<Rightarrow> bool" where
  "isGlobPattern p = list_all (\<lambda>c. c = CHR ''*'' \<or> c = CHR ''?'' \<or> \<not> isSyntaxCharacter c) p"

definition globSource :: "char \<Rightarrow> string" where
  "globSource c = (if c = CHR ''*'' then ''.*'' else if c = CHR ''?'' then ''.'' else [c])"

definition globTerm :: "char \<Rightarrow> rterm" where
  "globTerm c =
     (if c = CHR ''*'' then Star AnyChar else if c = CHR ''?'' then Once AnyChar else Once (Lit c))"

text \<open>
  The separator as the specification words it: the token OR, in either case, surrounded
  by white space, that is a non-empty run of white space, the two letters, and a
  non-empty run of white space. A string has the token when some contiguous part of it
  is one. \<open>joinWith\<close> puts the separators back between the segments.
\<close>

definition isOrToken :: "string \<Rightarrow> bool" where
  "isOrToken t =
     (case dropWhile isWhiteSpace t of
        c1 # c2 # w \<Rightarrow>
          takeWhile isWhiteSpace t \<noteq> [] \<and> (c1 = CHR ''O'' \<or> c1 = CHR ''o'') \<and>
          (c2 = CHR ''R'' \<or> c2 = CHR ''r'') \<and> w \<noteq> [] \<and> list_all isWhiteSpace w
      | _ \<Rightarrow> False)"

definition hasOrToken :: "string \<Rightarrow> bool" where
  "hasOrToken s = list_ex isOrToken (sublists s)"

fun joinWith :: "string list \<Rightarrow> string list \<Rightarrow> string" where
  "joinWith [] ts = []"
| "joinWith (x # xs) [] = concat (x # xs)"
| "joinWith (x # xs) (t # ts) = x @ t @ joinWith xs ts"

section \<open>Facts about license expressions\<close>

lemma findSeparator_blank: "\<forall>c\<in>set s. isWhiteSpace c \<Longrightarrow> findSeparator s = None"
proof (induction s)
  case Nil
  then show ?case by simp
next
  case (Cons c cs)
  then have "dropWhile isWhiteSpace (c # cs) = []" by simp
  then have "matchSeparator (c # cs) = None"
    by (simp add: matchSeparator_def)
  with Cons show ?case by simp
qed

lemma split_OR_None: "findSeparator s = None \<Longrightarrow> split_OR s = [s]"
  by (subst split_OR.simps) simp

lemma split_OR_Some: "findSeparator s = Some (seg, rest) \<Longrightarrow> split_OR s = seg # split_OR rest"
  by (subst split_OR.simps) simp

lemma trim_blank: "\<forall>c\<in>set s. isWhiteSpace c \<Longrightarrow> trim s = []"
proof -
  assume "\<forall>c\<in>set s. isWhiteSpace c"
  then have d: "dropWhile isWhiteSpace s = []" by simp
  show ?thesis unfolding trim_def d by simp
qed

lemma parse_blank: "\<forall>c\<in>set s. isWhiteSpace c \<Longrightarrow> parseLicenseExpression s = []"
  by (simp add: parseLicenseExpression_def split_OR_None findSeparator_blank trim_blank)

lemma letter_not_white:
  "c = CHR ''O'' \<or> c = CHR ''o'' \<Longrightarrow> \<not> isWhiteSpace c"
  by (auto simp: isWhiteSpace_def)

lemma isOrToken_iff:
  "isOrToken t \<longleftrightarrow>
   (\<exists>w1 c1 c2 w2. t = w1 @ c1 # c2 # w2 \<and> w1 \<noteq> [] \<and> (\<forall>c\<in>set w1. isWhiteSpace c) \<and>
      (c1 = CHR ''O'' \<or> c1 = CHR ''o'') \<and> (c2 = CHR ''R'' \<or> c2 = CHR ''r'') \<and>
      w2 \<noteq> [] \<and> (\<forall>c\<in>set w2. isWhiteSpace c))"
proof
  assume "isOrToken t"
  then obtain c1 c2 w where d: "dropWhile isWhiteSpace t = c1 # c2 # w"
    and p: "takeWhile isWhiteSpace t \<noteq> []" "c1 = CHR ''O'' \<or> c1 = CHR ''o''"
      "c2 = CHR ''R'' \<or> c2 = CHR ''r''" "w \<noteq> []" "list_all isWhiteSpace w"
    by (auto simp: isOrToken_def split: list.splits)
  have "t = takeWhile isWhiteSpace t @ c1 # c2 # w"
    using takeWhile_dropWhile_id [of isWhiteSpace t] d by simp
  moreover have "\<forall>c\<in>set (takeWhile isWhiteSpace t). isWhiteSpace c"
    by (auto dest: set_takeWhileD)
  ultimately show "\<exists>w1 c1 c2 w2. t = w1 @ c1 # c2 # w2 \<and> w1 \<noteq> [] \<and>
      (\<forall>c\<in>set w1. isWhiteSpace c) \<and> (c1 = CHR ''O'' \<or> c1 = CHR ''o'') \<and>
      (c2 = CHR ''R'' \<or> c2 = CHR ''r'') \<and> w2 \<noteq> [] \<and> (\<forall>c\<in>set w2. isWhiteSpace c)"
    using p by (auto simp: list_all_iff)
next
  assume "\<exists>w1 c1 c2 w2. t = w1 @ c1 # c2 # w2 \<and> w1 \<noteq> [] \<and>
      (\<forall>c\<in>set w1. isWhiteSpace c) \<and> (c1 = CHR ''O'' \<or> c1 = CHR ''o'') \<and>
      (c2 = CHR ''R'' \<or> c2 = CHR ''r'') \<and> w2 \<noteq> [] \<and> (\<forall>c\<in>set w2. isWhiteSpace c)"
  then obtain w1 c1 c2 w2 where t: "t = w1 @ c1 # c2 # w2" and w1: "w1 \<noteq> []"
    "\<forall>c\<in>set w1. isWhiteSpace c" and c: "c1 = CHR ''O'' \<or> c1 = CHR ''o''"
    "c2 = CHR ''R'' \<or> c2 = CHR ''r''" and w2: "w2 \<noteq> []" "\<forall>c\<in>set w2. isWhiteSpace c"
    by blast
  from c(1) have n: "\<not> isWhiteSpace c1" by (rule letter_not_white)
  from w1(2) n have "takeWhile isWhiteSpace t = w1" "dropWhile isWhiteSpace t = c1 # c2 # w2"
    unfolding t by (simp_all add: takeWhile_append2 dropWhile_append2)
  with w1(1) c w2 show "isOrToken t"
    by (simp add: isOrToken_def list_all_iff)
qed

lemma hasOrToken_iff: "hasOrToken s \<longleftrightarrow> (\<exists>pre t post. isOrToken t \<and> s = pre @ t @ post)"
proof -
  have "hasOrToken s \<longleftrightarrow> (\<exists>t. sublist t s \<and> isOrToken t)"
    by (auto simp: hasOrToken_def list_ex_iff)
  also have "\<dots> \<longleftrightarrow> (\<exists>pre t post. isOrToken t \<and> s = pre @ t @ post)"
    unfolding sublist_def by blast
  finally show ?thesis .
qed

lemma matchSeparator_token:
  assumes "matchSeparator s = Some rest"
  shows "\<exists>t. isOrToken t \<and> s = t @ rest"
proof -
  from assms obtain c1 c2 r where d: "dropWhile isWhiteSpace s = c1 # c2 # r"
    and p: "takeWhile isWhiteSpace s \<noteq> []" "c1 = CHR ''O'' \<or> c1 = CHR ''o''"
      "c2 = CHR ''R'' \<or> c2 = CHR ''r''" "takeWhile isWhiteSpace r \<noteq> []"
    and rest: "rest = dropWhile isWhiteSpace r"
    by (auto simp: matchSeparator_def split: if_splits list.splits)
  let ?t = "takeWhile isWhiteSpace s @ c1 # c2 # takeWhile isWhiteSpace r"
  have "s = takeWhile isWhiteSpace s @ c1 # c2 # r"
    using takeWhile_dropWhile_id [of isWhiteSpace s] d by simp
  also have "r = takeWhile isWhiteSpace r @ rest"
    by (simp add: rest)
  finally have "s = ?t @ rest" by simp
  moreover have "isOrToken ?t"
    unfolding isOrToken_iff using p by (blast dest: set_takeWhileD)
  ultimately show ?thesis by blast
qed

lemma token_matches:
  assumes "isOrToken t"
  shows "\<exists>rest. matchSeparator (t @ post) = Some rest"
proof -
  from assms obtain w1 c1 c2 w2 where t: "t = w1 @ c1 # c2 # w2" and w1: "w1 \<noteq> []"
    "\<forall>c\<in>set w1. isWhiteSpace c" and c: "c1 = CHR ''O'' \<or> c1 = CHR ''o''"
    "c2 = CHR ''R'' \<or> c2 = CHR ''r''" and w2: "w2 \<noteq> []" "\<forall>c\<in>set w2. isWhiteSpace c"
    unfolding isOrToken_iff by blast
  from c(1) have n: "\<not> isWhiteSpace c1" by (rule letter_not_white)
  from w1(2) n have tw: "takeWhile isWhiteSpace (t @ post) = w1"
    and dw: "dropWhile isWhiteSpace (t @ post) = c1 # c2 # w2 @ post"
    unfolding t by (simp_all add: takeWhile_append2 dropWhile_append2)
  from w2 have "takeWhile isWhiteSpace (w2 @ post) \<noteq> []"
    by (cases w2) simp_all
  with tw dw w1(1) c show ?thesis
    by (simp add: matchSeparator_def)
qed

lemma matchSeparator_extend:
  "matchSeparator x = Some r \<Longrightarrow> \<exists>r'. matchSeparator (x @ y) = Some r'"
proof -
  assume "matchSeparator x = Some r"
  from matchSeparator_token [OF this] obtain t where "isOrToken t" "x = t @ r" by blast
  with token_matches [of t "r @ y"] show ?thesis by simp
qed

lemma findSeparator_token:
  "findSeparator s = Some (seg, rest) \<Longrightarrow> \<exists>t. isOrToken t \<and> s = seg @ t @ rest"
proof (induction s arbitrary: seg)
  case Nil
  then show ?case by simp
next
  case (Cons c cs)
  show ?case
  proof (cases "matchSeparator (c # cs)")
    case (Some r)
    with Cons.prems have "seg = []" "rest = r" by simp_all
    with matchSeparator_token [OF Some] show ?thesis by simp
  next
    case None
    with Cons.prems obtain seg' where f: "findSeparator cs = Some (seg', rest)"
      and seg: "seg = c # seg'"
      by (auto split: option.splits)
    from Cons.IH [OF f] seg show ?thesis by auto
  qed
qed

lemma token_found:
  "isOrToken t \<Longrightarrow> \<exists>seg rest. findSeparator (pre @ t @ post) = Some (seg, rest)"
proof (induction pre)
  case Nil
  from token_matches [OF Nil, of post] obtain rest
    where m: "matchSeparator (t @ post) = Some rest" ..
  then obtain c cs where "t @ post = c # cs"
    by (cases "t @ post") (simp_all add: matchSeparator_def)
  with m show ?case by simp
next
  case (Cons a pre)
  then obtain seg rest where "findSeparator (pre @ t @ post) = Some (seg, rest)" by blast
  then show ?case by (simp split: option.splits)
qed

lemma findSeparator_None_iff: "findSeparator s = None \<longleftrightarrow> \<not> hasOrToken s"
proof
  assume n: "findSeparator s = None"
  show "\<not> hasOrToken s"
  proof
    assume "hasOrToken s"
    then obtain pre t post where "isOrToken t" "s = pre @ t @ post"
      unfolding hasOrToken_iff by blast
    with token_found [of t pre post] n show False by simp
  qed
next
  assume h: "\<not> hasOrToken s"
  show "findSeparator s = None"
  proof (cases "findSeparator s")
    case None
    then show ?thesis .
  next
    case (Some a)
    obtain seg rest where "a = (seg, rest)" by (cases a)
    with Some findSeparator_token [of s seg rest] h show ?thesis
      unfolding hasOrToken_iff by blast
  qed
qed

lemma findSeparator_segment:
  "findSeparator s = Some (seg, rest) \<Longrightarrow> findSeparator seg = None"
proof (induction s arbitrary: seg)
  case Nil
  then show ?case by simp
next
  case (Cons c cs)
  show ?case
  proof (cases "matchSeparator (c # cs)")
    case (Some r)
    with Cons.prems show ?thesis by simp
  next
    case None
    with Cons.prems obtain seg' where f: "findSeparator cs = Some (seg', rest)"
      and seg: "seg = c # seg'"
      by (auto split: option.splits)
    from findSeparator_token [OF f] obtain t where cs: "cs = seg' @ t @ rest" by blast
    have "matchSeparator (c # seg') = None"
    proof (cases "matchSeparator (c # seg')")
      case None
      then show ?thesis .
    next
      case (Some r)
      from matchSeparator_extend [OF this, of "t @ rest"] None cs show ?thesis by simp
    qed
    with Cons.IH [OF f] seg show ?thesis by simp
  qed
qed

lemma split_OR_decomposition:
  "\<exists>seps. length (split_OR s) = length seps + 1 \<and> (\<forall>t\<in>set seps. isOrToken t) \<and>
          joinWith (split_OR s) seps = s"
proof (induction s rule: split_OR.induct)
  case (1 s)
  show ?case
  proof (cases "findSeparator s")
    case None
    then have "split_OR s = [s]" by (rule split_OR_None)
    then have "length (split_OR s) = length ([]::string list) + 1 \<and>
               (\<forall>t\<in>set ([]::string list). isOrToken t) \<and> joinWith (split_OR s) [] = s"
      by simp
    then show ?thesis by blast
  next
    case (Some a)
    obtain seg rest where a: "a = (seg, rest)" by (cases a)
    from Some a have f: "findSeparator s = Some (seg, rest)" by simp
    from 1 [OF Some a [symmetric]] obtain seps
      where IH: "length (split_OR rest) = length seps + 1" "\<forall>t\<in>set seps. isOrToken t"
        "joinWith (split_OR rest) seps = rest"
      by blast
    from findSeparator_token [OF f] obtain t where t: "isOrToken t" "s = seg @ t @ rest"
      by blast
    from IH t split_OR_Some [OF f]
    have "length (split_OR s) = length (t # seps) + 1 \<and>
          (\<forall>x\<in>set (t # seps). isOrToken x) \<and> joinWith (split_OR s) (t # seps) = s"
      by simp
    then show ?thesis by blast
  qed
qed

lemma split_OR_segments: "g \<in> set (split_OR s) \<Longrightarrow> \<not> hasOrToken g"
proof (induction s rule: split_OR.induct)
  case (1 s)
  show ?case
  proof (cases "findSeparator s")
    case None
    with 1(2) show ?thesis
      by (simp add: split_OR_None findSeparator_None_iff)
  next
    case (Some a)
    obtain seg rest where a: "a = (seg, rest)" by (cases a)
    from Some a have f: "findSeparator s = Some (seg, rest)" by simp
    from 1(2) split_OR_Some [OF f] have "g = seg \<or> g \<in> set (split_OR rest)" by simp
    then show ?thesis
    proof
      assume "g = seg"
      with findSeparator_segment [OF f] show ?thesis
        by (simp add: findSeparator_None_iff)
    next
      assume "g \<in> set (split_OR rest)"
      with 1(1) [OF Some a [symmetric]] show ?thesis .
    qed
  qed
qed

lemma trim_decomposition:
  "\<exists>l r. s = l @ trim s @ r \<and> (\<forall>c\<in>set l. isWhiteSpace c) \<and> (\<forall>c\<in>set r. isWhiteSpace c)"
proof -
  let ?x = "dropWhile isWhiteSpace s"
  let ?l = "takeWhile isWhiteSpace s" and ?r = "rev (takeWhile isWhiteSpace (rev ?x))"
  have "trim s @ ?r = rev (takeWhile isWhiteSpace (rev ?x) @ dropWhile isWhiteSpace (rev ?x))"
    unfolding trim_def by (simp only: rev_append)
  also have "\<dots> = rev (rev ?x)"
    by (simp only: takeWhile_dropWhile_id)
  finally have "?x = trim s @ ?r" by simp
  moreover have "s = ?l @ ?x" by simp
  ultimately have "s = ?l @ trim s @ ?r" by simp
  moreover have "\<forall>c\<in>set ?l. isWhiteSpace c" by (auto dest: set_takeWhileD)
  moreover have "\<forall>c\<in>set ?r. isWhiteSpace c" by (auto dest: set_takeWhileD)
  ultimately show ?thesis by blast
qed

lemma trim_ends:
  assumes "trim s \<noteq> []"
  shows "\<not> isWhiteSpace (hd (trim s)) \<and> \<not> isWhiteSpace (last (trim s))"
proof -
  let ?x = "dropWhile isWhiteSpace s"
  let ?y = "dropWhile isWhiteSpace (rev ?x)"
  from assms have y: "?y \<noteq> []" by (simp add: trim_def)
  have "?x = [] \<Longrightarrow> ?y = []"
    by (simp only: rev.simps dropWhile.simps)
  with y have x: "?x \<noteq> []" by blast
  have "last (trim s) = hd ?y"
    using y by (simp add: trim_def last_rev)
  moreover from y have "\<not> isWhiteSpace (hd ?y)" by (rule hd_dropWhile)
  moreover have "hd (trim s) = last ?y"
    using y by (simp add: trim_def hd_rev)
  moreover have "last ?y = last (rev ?x)"
  proof -
    from y have "last (takeWhile isWhiteSpace (rev ?x) @ ?y) = last ?y"
      by (rule last_appendR)
    then show ?thesis by (simp only: takeWhile_dropWhile_id)
  qed
  moreover have "last (rev ?x) = hd ?x"
    using x by (simp add: last_rev)
  moreover from x have "\<not> isWhiteSpace (hd ?x)" by (rule hd_dropWhile)
  ultimately show ?thesis by simp
qed

lemma trim_sublist: "sublist (trim s) s"
  using trim_decomposition [of s] unfolding sublist_def by metis

lemma trim_Nil_iff: "trim s = [] \<longleftrightarrow> (\<forall>c\<in>set s. isWhiteSpace c)"
proof
  assume e: "trim s = []"
  from trim_decomposition [of s] obtain l r
    where "s = l @ trim s @ r" "\<forall>c\<in>set l. isWhiteSpace c" "\<forall>c\<in>set r. isWhiteSpace c"
    by blast
  with e have "set s = set l \<union> set r" by (metis append_Nil set_append)
  with \<open>\<forall>c\<in>set l. isWhiteSpace c\<close> \<open>\<forall>c\<in>set r. isWhiteSpace c\<close>
  show "\<forall>c\<in>set s. isWhiteSpace c" by blast
next
  assume "\<forall>c\<in>set s. isWhiteSpace c"
  then show "trim s = []" by (rule trim_blank)
qed

lemma joinWith_sublist: "g \<in> set segs \<Longrightarrow> sublist g (joinWith segs seps)"
proof (induction segs seps rule: joinWith.induct)
  case (1 ts)
  then show ?case by simp
next
  case (2 x xs)
  then obtain a b where "x # xs = a @ g # b" by (meson split_list)
  then have "concat (x # xs) = concat a @ g @ concat b" by simp
  then have "joinWith (x # xs) [] = concat a @ g @ concat b" by simp
  then show ?case unfolding sublist_def by blast
next
  case (3 x xs t ts)
  from 3(2) have "g = x \<or> g \<in> set xs" by auto
  then show ?case
  proof
    assume "g = x"
    then show ?thesis by simp
  next
    assume "g \<in> set xs"
    from 3(1) [OF this] obtain a b where "joinWith xs ts = a @ g @ b"
      unfolding sublist_def by blast
    then have "joinWith (x # xs) (t # ts) = (x @ t @ a) @ g @ b" by simp
    then show ?thesis unfolding sublist_def by blast
  qed
qed

lemma split_OR_sublist: "g \<in> set (split_OR s) \<Longrightarrow> sublist g s"
proof -
  assume g: "g \<in> set (split_OR s)"
  from split_OR_decomposition [of s] obtain seps where "joinWith (split_OR s) seps = s"
    by blast
  with joinWith_sublist [OF g, of seps] show ?thesis by simp
qed

lemma sublist_trans: "sublist a b \<Longrightarrow> sublist b c \<Longrightarrow> sublist a c"
proof -
  assume "sublist a b" "sublist b c"
  then obtain p q p' q' where "b = p @ a @ q" "c = p' @ b @ q'"
    unfolding sublist_def by blast
  then have "c = (p' @ p) @ a @ (q @ q')" by simp
  then show ?thesis unfolding sublist_def by blast
qed

lemma parse_candidate:
  assumes "c \<in> set (parseLicenseExpression s)"
  shows "c \<noteq> [] \<and> sublist c s \<and> \<not> isWhiteSpace (hd c) \<and> \<not> isWhiteSpace (last c)"
proof -
  from assms obtain g where g: "g \<in> set (split_OR s)" and c: "c = trim g" "c \<noteq> []"
    by (auto simp: parseLicenseExpression_def)
  from trim_sublist [of g] split_OR_sublist [OF g] c(1) have "sublist c s"
    by (auto intro: sublist_trans)
  with c trim_ends [of g] show ?thesis by simp
qed

lemma parse_no_token:
  assumes "\<not> hasOrToken s" and "\<exists>c\<in>set s. \<not> isWhiteSpace c"
  shows "parseLicenseExpression s = [trim s]"
proof -
  from assms(1) have "split_OR s = [s]"
    by (simp add: split_OR_None findSeparator_None_iff)
  moreover from assms(2) have "trim s \<noteq> []"
    by (simp add: trim_Nil_iff)
  ultimately show ?thesis by (simp add: parseLicenseExpression_def)
qed

lemma parse_Nil_iff:
  "parseLicenseExpression s = [] \<longleftrightarrow> (\<forall>g\<in>set (split_OR s). \<forall>c\<in>set g. isWhiteSpace c)"
proof -
  have "parseLicenseExpression s = [] \<longleftrightarrow> (\<forall>g\<in>set (split_OR s). trim g = [])"
    by (auto simp: parseLicenseExpression_def filter_empty_conv)
  then show ?thesis by (simp add: trim_Nil_iff)
qed

section \<open>Facts about the evaluator and the loop\<close>

lemma includesStr_sublist: "includesStr s t = sublist t s"
  by (induction s) (simp_all add: sublist_Cons_right)

lemma includesStr_iff: "includesStr s t \<longleftrightarrow> (\<exists>u v. s = u @ t @ v)"
  by (simp add: includesStr_sublist sublist_def)

lemma matchesAny_iff:
  "matchesAny l ids \<longleftrightarrow> (\<exists>d\<in>set ids. \<exists>u v. toLowerCase l = u @ toLowerCase d @ v)"
  by (simp add: matchesAny_def list_ex_iff includesStr_iff)

lemma find_first:
  "List.find P xs = Some x \<Longrightarrow> \<exists>pre post. xs = pre @ x # post \<and> P x \<and> (\<forall>y\<in>set pre. \<not> P y)"
proof (induction xs)
  case Nil
  then show ?case by simp
next
  case (Cons a xs)
  show ?case
  proof (cases "P a")
    case True
    with Cons.prems have "a = x" by simp
    with True have "a # xs = [] @ x # xs \<and> P x \<and> (\<forall>y\<in>set []. \<not> P y)" by simp
    then show ?thesis by blast
  next
    case False
    with Cons.prems have "List.find P xs = Some x" by simp
    from Cons.IH [OF this] obtain pre post
      where "xs = pre @ x # post" "P x" "\<forall>y\<in>set pre. \<not> P y" by blast
    with False have "a # xs = (a # pre) @ x # post \<and> P x \<and> (\<forall>y\<in>set (a # pre). \<not> P y)"
      by simp
    then show ?thesis by blast
  qed
qed

lemma checkLicenses_denied:
  assumes "\<exists>l\<in>set licenses. matchesAny l dis"
  shows "\<exists>pre l post. licenses = pre @ l # post \<and> matchesAny l dis \<and>
           (\<forall>y\<in>set pre. \<not> matchesAny y dis) \<and>
           (\<forall>al. checkLicenses licenses al dis =
                   \<lparr>is_allowed = False, reason = Some (denyReason l)\<rparr>)"
proof -
  from assms have "List.find (\<lambda>l. matchesAny l dis) licenses \<noteq> None"
    by (auto simp: find_None_iff)
  then obtain l where f: "List.find (\<lambda>l. matchesAny l dis) licenses = Some l" by blast
  from find_first [OF f] obtain pre post
    where "licenses = pre @ l # post" "matchesAny l dis" "\<forall>y\<in>set pre. \<not> matchesAny y dis"
    by blast
  moreover from f have "\<forall>al. checkLicenses licenses al dis =
      \<lparr>is_allowed = False, reason = Some (denyReason l)\<rparr>"
    by (simp add: checkLicenses_def)
  ultimately show ?thesis by blast
qed

lemma checkLicenses_not_denied:
  assumes "\<forall>l\<in>set licenses. \<not> matchesAny l dis"
  shows "checkLicenses licenses al dis =
           (if al \<noteq> [] \<and> (\<forall>l\<in>set licenses. \<not> matchesAny l al)
            then \<lparr>is_allowed = False, reason = Some (allowReason licenses)\<rparr>
            else \<lparr>is_allowed = True, reason = None\<rparr>)"
proof -
  from assms have "List.find (\<lambda>l. matchesAny l dis) licenses = None"
    by (simp add: find_None_iff)
  then show ?thesis
    by (simp add: checkLicenses_def list_ex_iff)
qed

lemma checkLicenses_truthy:
  "\<not> is_allowed (checkLicenses licenses al dis) \<Longrightarrow> truthy (reason (checkLicenses licenses al dis))"
  by (simp add: checkLicenses_def truthy_def denyReason_def allowReason_def
        split: option.splits if_splits)

lemma matchesAny_sublist:
  "matchesAny l ids \<longleftrightarrow> (\<exists>d\<in>set ids. sublist (toLowerCase d) (toLowerCase l))"
  by (simp add: matchesAny_def list_ex_iff includesStr_sublist)

lemma denyReason_text:
  "denyReason l = ''License '' @ [CHR 0x27] @ l @ [CHR 0x27] @ '' is not allowed''"
  by (simp add: denyReason_def apostrophe_def)

lemma join_eq:
  "join sep xs = (case xs of [] \<Rightarrow> [] | x # ys \<Rightarrow> x @ concat (map (\<lambda>y. sep @ y) ys))"
  by (induction sep xs rule: join.induct) simp_all

lemma allowReason_text:
  "allowReason licenses =
     ''None of the licenses '' @ [CHR 0x27] @
     (case licenses of [] \<Rightarrow> [] | c # cs \<Rightarrow> c @ concat (map (\<lambda>x. '', '' @ x) cs)) @
     [CHR 0x27] @ '' are in the allowed list''"
  by (simp add: allowReason_def apostrophe_def join_eq [of "'', ''" licenses])

lemma isLicenseAllowed_truthy:
  "\<not> is_allowed (isLicenseAllowed lic al dis) \<Longrightarrow> truthy (reason (isLicenseAllowed lic al dis))"
  unfolding isLicenseAllowed_def by (rule checkLicenses_truthy)

lemma passes_iff:
  "passes ext ign pkg \<longleftrightarrow>
   isIgnored ext (name pkg) ign = Inr True \<or>
   isIgnored ext (name pkg) ign = Inr False \<and> (\<exists>lic. license pkg = JString lic)"
  by (cases "license pkg") (simp_all add: passes_def)

lemma checkLoop_passes:
  assumes "passes ext ign pkg"
  shows "checkLoop ext al dis ign (pkg # pkgs) vs out =
           checkLoop ext al dis ign pkgs (vs @ violationsOf ext al dis ign pkg)
             (out @ warningsOf ext ign pkg)"
proof (cases "isIgnored ext (name pkg) ign = Inr True")
  case True
  then show ?thesis
    by (simp add: violationsOf_def warningsOf_def split: jsvalue.splits)
next
  case False
  with assms have ni: "isIgnored ext (name pkg) ign = Inr False"
    and "license pkg \<noteq> NonString"
    by (simp_all add: passes_def)
  then obtain lic where lic: "license pkg = JString lic" by (cases "license pkg") simp_all
  show ?thesis
  proof (cases "lic = ''UNKNOWN''")
    case True
    with ni lic show ?thesis
      by (simp add: violationsOf_def warningsOf_def)
  next
    case False
    with ni lic isLicenseAllowed_truthy [of lic al dis] show ?thesis
      by (simp add: violationsOf_def warningsOf_def Let_def)
  qed
qed

lemma checkLoop_stops:
  assumes "\<not> passes ext ign pkg"
  shows "checkLoop ext al dis ign (pkg # pkgs) vs out =
           \<lparr>console = out,
            completion = Inl (case isIgnored ext (name pkg) ign of
                                Inl e \<Rightarrow> e | Inr b \<Rightarrow> TypeError)\<rparr>"
proof (cases "isIgnored ext (name pkg) ign")
  case (Inl e)
  then show ?thesis by simp
next
  case (Inr b)
  with assms have "b = False" "license pkg = NonString"
    by (auto simp: passes_def)
  with Inr show ?thesis by simp
qed

lemma checkLoop_run:
  "\<forall>pkg\<in>set pkgs. passes ext ign pkg \<Longrightarrow>
   checkLoop ext al dis ign pkgs vs out =
     \<lparr>console = out @ concat (map (warningsOf ext ign) pkgs),
      completion = Inr (vs @ concat (map (violationsOf ext al dis ign) pkgs))\<rparr>"
proof (induction pkgs arbitrary: vs out)
  case Nil
  then show ?case by simp
next
  case (Cons pkg pkgs)
  then have p: "passes ext ign pkg" and rest: "\<forall>pkg\<in>set pkgs. passes ext ign pkg"
    by simp_all
  show ?case
    by (simp only: checkLoop_passes [OF p] Cons.IH [OF rest]) simp
qed

lemma checkLoop_first_stop:
  assumes "\<forall>p\<in>set pre. passes ext ign p" and "\<not> passes ext ign pkg"
  shows "completion (checkLoop ext al dis ign (pre @ pkg # post) vs out) =
           Inl (case isIgnored ext (name pkg) ign of Inl e \<Rightarrow> e | Inr b \<Rightarrow> TypeError)"
  using assms(1)
proof (induction pre arbitrary: vs out)
  case Nil
  show ?case by (simp only: append_Nil checkLoop_stops [OF assms(2)]) simp
next
  case (Cons p pre)
  then have p: "passes ext ign p" and rest: "\<forall>p\<in>set pre. passes ext ign p"
    by simp_all
  show ?case
    by (simp only: append_Cons checkLoop_passes [OF p] Cons.IH [OF rest])
qed

lemma checkLoop_returns_iff:
  "(\<exists>res. completion (checkLoop ext al dis ign pkgs vs out) = Inr res) \<longleftrightarrow>
   (\<forall>pkg\<in>set pkgs. passes ext ign pkg)"
proof
  assume r: "\<exists>res. completion (checkLoop ext al dis ign pkgs vs out) = Inr res"
  show "\<forall>pkg\<in>set pkgs. passes ext ign pkg"
  proof (rule ccontr)
    assume "\<not> (\<forall>pkg\<in>set pkgs. passes ext ign pkg)"
    then have "\<exists>x\<in>set pkgs. \<not> passes ext ign x" by simp
    then obtain pre pkg post where "pkgs = pre @ pkg # post" "\<not> passes ext ign pkg"
      "\<forall>y\<in>set pre. \<not> \<not> passes ext ign y"
      by (rule split_list_first_propE)
    then have "\<exists>e. completion (checkLoop ext al dis ign pkgs vs out) = Inl e"
      using checkLoop_first_stop [of pre ext ign pkg al dis post vs out] by simp
    with r show False by auto
  qed
next
  assume "\<forall>pkg\<in>set pkgs. passes ext ign pkg"
  then show "\<exists>res. completion (checkLoop ext al dis ign pkgs vs out) = Inr res"
    by (simp add: checkLoop_run)
qed

lemma checkLoop_completion:
  assumes "completion (checkLoop ext al dis ign pkgs vs out) = Inr res"
  shows "res = vs @ concat (map (violationsOf ext al dis ign) pkgs)"
proof -
  from assms have "\<forall>pkg\<in>set pkgs. passes ext ign pkg"
    using checkLoop_returns_iff [of ext al dis ign pkgs vs out] by blast
  from checkLoop_run [OF this, of al dis vs out] assms show ?thesis by simp
qed

lemma checkLoop_throws_later:
  assumes "isIgnored ext (name pkg) ign = Inl e"
  shows "\<exists>e'. completion (checkLoop ext al dis ign (pre @ pkg # post) vs out) = Inl e'"
proof (cases "\<exists>res. completion (checkLoop ext al dis ign (pre @ pkg # post) vs out) = Inr res")
  case True
  then have "passes ext ign pkg"
    using checkLoop_returns_iff [of ext al dis ign "pre @ pkg # post" vs out] by simp
  with assms show ?thesis by (simp add: passes_def)
next
  case False
  then show ?thesis
    by (cases "completion (checkLoop ext al dis ign (pre @ pkg # post) vs out)") auto
qed

lemma checkLoop_skip:
  "isIgnored ext (name pkg) ign = Inr True \<Longrightarrow>
   checkLoop ext al dis ign (pre @ pkg # post) vs out = checkLoop ext al dis ign (pre @ post) vs out"
proof (induction pre arbitrary: vs out)
  case Nil
  then show ?case by simp
next
  case (Cons p pre)
  then have IH: "\<And>vs out. checkLoop ext al dis ign (pre @ pkg # post) vs out =
                   checkLoop ext al dis ign (pre @ post) vs out"
    by simp
  show ?case
  proof (cases "passes ext ign p")
    case True
    show ?thesis by (simp only: append_Cons checkLoop_passes [OF True] IH)
  next
    case False
    show ?thesis by (simp only: append_Cons checkLoop_stops [OF False])
  qed
qed

lemma checkLicenseCompliance_completion:
  "completion (checkLicenseCompliance ext pkgs opts) = Inr res \<Longrightarrow>
   res = concat (map (violationsOf ext (orEmpty (allowed opts)) (orEmpty (disallowed opts))
                        (orEmpty (ignores opts))) pkgs)"
  unfolding checkLicenseCompliance_def by (drule checkLoop_completion) simp

lemma violationsOf_member:
  "v \<in> set (violationsOf ext al dis ign pkg) \<longleftrightarrow>
   (\<exists>lic. license pkg = JString lic \<and> isIgnored ext (name pkg) ign = Inr False \<and>
      lic \<noteq> ''UNKNOWN'' \<and> \<not> is_allowed (isLicenseAllowed lic al dis) \<and>
      v = \<lparr>package = name pkg, vlicense = lic,
            vreason = the (reason (isLicenseAllowed lic al dis))\<rparr>)"
  by (cases "license pkg") (auto simp: violationsOf_def)

lemma checkLicenseCompliance_violation:
  assumes "completion (checkLicenseCompliance ext pkgs opts) = Inr res"
  shows "v \<in> set res \<longleftrightarrow>
         (\<exists>pkg\<in>set pkgs. \<exists>lic. license pkg = JString lic \<and>
            isIgnored ext (name pkg) (orEmpty (ignores opts)) = Inr False \<and>
            lic \<noteq> ''UNKNOWN'' \<and>
            \<not> is_allowed (isLicenseAllowed lic (orEmpty (allowed opts))
                            (orEmpty (disallowed opts))) \<and>
            v = \<lparr>package = name pkg, vlicense = lic,
                  vreason = the (reason (isLicenseAllowed lic (orEmpty (allowed opts))
                                           (orEmpty (disallowed opts))))\<rparr>)"
  unfolding checkLicenseCompliance_completion [OF assms]
  by (simp add: violationsOf_member)

lemma violations_subseq:
  "\<exists>qs. subseq qs pkgs \<and>
        map package (concat (map (violationsOf ext al dis ign) pkgs)) = map name qs \<and>
        map (\<lambda>v. JString (vlicense v)) (concat (map (violationsOf ext al dis ign) pkgs)) =
          map license qs"
proof (induction pkgs)
  case Nil
  then show ?case by simp
next
  case (Cons pkg pkgs)
  then obtain qs where qs: "subseq qs pkgs"
    "map package (concat (map (violationsOf ext al dis ign) pkgs)) = map name qs"
    "map (\<lambda>v. JString (vlicense v)) (concat (map (violationsOf ext al dis ign) pkgs)) =
       map license qs"
    by blast
  show ?case
  proof (cases "violationsOf ext al dis ign pkg = []")
    case True
    from qs(1) have "subseq qs (pkg # pkgs)" by (rule list_emb_Cons)
    with True qs have "subseq qs (pkg # pkgs) \<and>
        map package (concat (map (violationsOf ext al dis ign) (pkg # pkgs))) = map name qs \<and>
        map (\<lambda>v. JString (vlicense v)) (concat (map (violationsOf ext al dis ign) (pkg # pkgs))) =
          map license qs"
      by simp
    then show ?thesis by blast
  next
    case False
    then obtain lic where "license pkg = JString lic"
      "violationsOf ext al dis ign pkg =
         [\<lparr>package = name pkg, vlicense = lic,
           vreason = the (reason (isLicenseAllowed lic al dis))\<rparr>]"
      by (cases "license pkg") (auto simp: violationsOf_def split: if_splits)
    with qs have "subseq (pkg # qs) (pkg # pkgs) \<and>
        map package (concat (map (violationsOf ext al dis ign) (pkg # pkgs))) =
          map name (pkg # qs) \<and>
        map (\<lambda>v. JString (vlicense v)) (concat (map (violationsOf ext al dis ign) (pkg # pkgs))) =
          map license (pkg # qs)"
      by simp
    then show ?thesis by blast
  qed
qed

section \<open>Facts about ignore patterns\<close>

lemma replaceBracketGroups_id: "replaceBracketGroups s = s"
proof (induction s rule: replaceBracketGroups.induct)
  case 1
  then show ?case by simp
next
  case (2 c cs)
  show ?case
  proof (cases "matchBracketGroup (c # cs)")
    case None
    with 2 show ?thesis by simp
  next
    case (Some a)
    obtain grp rest where a: "a = (grp, rest)" by (cases a)
    let ?P = "\<lambda>x. x \<noteq> CHR '']''"
    from Some a have c: "c = CHR ''[''" and grp: "grp = takeWhile ?P cs"
      and ne: "dropWhile ?P cs \<noteq> []" and rest: "rest = tl (dropWhile ?P cs)"
      by (auto simp: matchBracketGroup_def Let_def split: if_splits)
    from ne have "hd (dropWhile ?P cs) = CHR '']''"
      using hd_dropWhile [of ?P cs] by simp
    with ne rest have "dropWhile ?P cs = CHR '']'' # rest"
      by (cases "dropWhile ?P cs") simp_all
    then have "cs = grp @ CHR '']'' # rest"
      using takeWhile_dropWhile_id [of ?P cs] grp by simp
    moreover from 2(2) [OF Some a [symmetric]] have "replaceBracketGroups rest = rest"
      by simp
    ultimately show ?thesis using Some a c by simp
  qed
qed

lemma replaceQuestion_replaceStar:
  "replaceQuestion (replaceStar p) = concat (map globSource p)"
  by (induction p) (simp_all add: replaceQuestion_def replaceStar_def globSource_def)

lemma regexSource_glob: "regexSource p = CHR ''^'' # concat (map globSource p) @ ''$''"
  by (simp add: regexSource_def replaceBracketGroups_id replaceQuestion_replaceStar)

lemma globSource_head:
  "isGlobPattern p \<Longrightarrow>
   \<exists>q r. concat (map globSource p) @ ''$'' = q # r \<and> q \<noteq> CHR ''*'' \<and> q \<noteq> CHR ''+''"
  by (cases p) (auto simp: isGlobPattern_def globSource_def isSyntaxCharacter_def)

lemma parseQuantifier_once:
  "q \<noteq> CHR ''*'' \<Longrightarrow> q \<noteq> CHR ''+'' \<Longrightarrow>
   parseQuantifier a (q # r) = andThen (Once a) (parseTerms (q # r))"
  by simp

lemma parseTerms_glob:
  "isGlobPattern p \<Longrightarrow>
   parseTerms (concat (map globSource p) @ ''$'') = Inr (map globTerm p @ [Eol])"
proof (induction p)
  case Nil
  then show ?case by (simp add: andThen_def)
next
  case (Cons c p)
  then have gp: "isGlobPattern p"
    and c: "c = CHR ''*'' \<or> c = CHR ''?'' \<or> \<not> isSyntaxCharacter c"
    by (simp_all add: isGlobPattern_def)
  let ?rest = "concat (map globSource p) @ ''$''"
  from Cons.IH [OF gp] have IH: "parseTerms ?rest = Inr (map globTerm p @ [Eol])" .
  from globSource_head [OF gp] obtain q r
    where qr: "?rest = q # r" "q \<noteq> CHR ''*''" "q \<noteq> CHR ''+''" by blast
  have once: "parseQuantifier a ?rest = Inr (Once a # map globTerm p @ [Eol])" for a
    using parseQuantifier_once [OF qr(2,3), of a r] IH qr(1) by (simp add: andThen_def)
  consider "c = CHR ''*''" | "c = CHR ''?''"
    | "c \<noteq> CHR ''*''" "c \<noteq> CHR ''?''" "\<not> isSyntaxCharacter c"
    using c by blast
  then show ?case
  proof cases
    case 1
    then have "globSource c = ''.*''" "globTerm c = Star AnyChar"
      by (simp_all add: globSource_def globTerm_def)
    moreover have "parseTerms (CHR ''.'' # CHR ''*'' # ?rest) = andThen (Star AnyChar) (parseTerms ?rest)"
      by (simp add: backslash_def)
    ultimately show ?thesis using IH by (simp add: andThen_def)
  next
    case 2
    then have "globSource c = ''.''" "globTerm c = Once AnyChar"
      by (simp_all add: globSource_def globTerm_def)
    moreover have "parseTerms (CHR ''.'' # ?rest) = parseQuantifier AnyChar ?rest"
      by (simp add: backslash_def)
    ultimately show ?thesis using once [of AnyChar] by simp
  next
    case 3
    then have "globSource c = [c]" "globTerm c = Once (Lit c)"
      by (simp_all add: globSource_def globTerm_def)
    moreover from 3 have "parseTerms (c # ?rest) = parseQuantifier (Lit c) ?rest"
      by (auto simp: isSyntaxCharacter_def)
    ultimately show ?thesis using once [of "Lit c"] by simp
  qed
qed

lemma RegExp_new_glob:
  "isGlobPattern p \<Longrightarrow>
   RegExp_new ext (regexSource p) = Inr (\<lambda>s. searchFrom (Bol # map globTerm p @ [Eol]) True s)"
  by (simp add: RegExp_new_def regexSource_glob parseTerms_glob andThen_def)

lemma searchFrom_Bol_later: "searchFrom (Bol # ts) False s = False"
  by (induction s) simp_all

lemma RegExp_test_anchored:
  "RegExp_test (\<lambda>s. searchFrom (Bol # ts) True s) s = matchTerms ts True s"
  by (cases s) (simp_all add: RegExp_test_def searchFrom_Bol_later)

lemma matchTerms_glob:
  "\<forall>c\<in>set s. \<not> isLineTerminator c \<Longrightarrow>
   matchTerms (map globTerm p @ [Eol]) b s = globMatches p s"
proof (induction p s arbitrary: b rule: globMatches.induct)
  case (1 s)
  then show ?case by simp
next
  case (2 p ps)
  then show ?case by (simp add: globTerm_def)
next
  case (3 p ps c cs)
  then show ?case
    by (auto simp: globTerm_def atomMatches_def)
qed

lemma isIgnored_glob_terms:
  "\<forall>p\<in>set pats. isGlobPattern p \<Longrightarrow>
   isIgnored ext n pats = Inr (\<exists>p\<in>set pats. matchTerms (map globTerm p @ [Eol]) True n)"
  by (induction pats) (simp_all add: RegExp_new_glob RegExp_test_anchored)

lemma isIgnored_glob:
  "\<forall>p\<in>set pats. isGlobPattern p \<Longrightarrow> \<forall>c\<in>set n. \<not> isLineTerminator c \<Longrightarrow>
   isIgnored ext n pats = Inr (\<exists>p\<in>set pats. globMatches p n)"
  by (simp add: isIgnored_glob_terms matchTerms_glob)

text \<open>The sources of the patterns \<^verbatim>\<open>+\<close> and \<^verbatim>\<open>c++\<close> are invalid, whatever the engine is.\<close>

lemma plus_patterns_do_not_compile:
  "RegExp_new ext (regexSource ''+'') = Inl SyntaxError"
  "RegExp_new ext (regexSource ''c++'') = Inl SyntaxError"
proof -
  have "parseTerms (regexSource ''+'') = Inl Invalid" by code_simp
  then show "RegExp_new ext (regexSource ''+'') = Inl SyntaxError"
    by (simp add: RegExp_new_def)
  have "parseTerms (regexSource ''c++'') = Inl Invalid" by code_simp
  then show "RegExp_new ext (regexSource ''c++'') = Inl SyntaxError"
    by (simp add: RegExp_new_def)
qed

lemma isIgnored_matching:
  "pat \<in> set ign \<Longrightarrow> RegExp_new ext (regexSource pat) = Inr regex \<Longrightarrow> RegExp_test regex n \<Longrightarrow>
   isIgnored ext n ign \<noteq> Inr False"
  by (induction ign) (auto split: sum.splits)

lemma isIgnored_compiles:
  "\<forall>pat\<in>set ign. \<exists>regex. RegExp_new ext (regexSource pat) = Inr regex \<Longrightarrow>
   \<exists>b. isIgnored ext n ign = Inr b"
  by (induction ign) (auto split: sum.splits)

lemma matchTerms_globLine:
  "matchTerms (map globTerm p @ [Eol]) b s = globMatchesLine p s"
proof (induction p s arbitrary: b rule: globMatchesLine.induct)
  case (1 s)
  then show ?case by simp
next
  case (2 p ps)
  then show ?case by (simp add: globTerm_def)
next
  case (3 p ps c cs)
  then show ?case
    by (auto simp: globTerm_def atomMatches_def)
qed

lemma globMatchesLine_plain:
  "\<forall>c\<in>set s. \<not> isLineTerminator c \<Longrightarrow> globMatchesLine p s = globMatches p s"
  by (induction p s rule: globMatches.induct) simp_all

lemma globMatchesLine_star: "globMatchesLine ''*'' s = (\<forall>c\<in>set s. \<not> isLineTerminator c)"
proof (induction s)
  case Nil
  then show ?case by simp
next
  case (Cons c cs)
  have "\<not> globMatchesLine [] (c # cs)" by simp
  with Cons show ?case by simp
qed

lemma isIgnored_globLine:
  "\<forall>p\<in>set pats. isGlobPattern p \<Longrightarrow>
   isIgnored ext n pats = Inr (\<exists>p\<in>set pats. globMatchesLine p n)"
  by (simp add: isIgnored_glob_terms matchTerms_globLine)

lemma isIgnored_Inl_iff:
  "isIgnored ext n pats = Inl e \<longleftrightarrow>
   (\<exists>pre p post. pats = pre @ p # post \<and> RegExp_new ext (regexSource p) = Inl e \<and>
      (\<forall>q\<in>set pre. \<exists>r. RegExp_new ext (regexSource q) = Inr r \<and> \<not> RegExp_test r n))"
proof
  show "isIgnored ext n pats = Inl e \<Longrightarrow>
    \<exists>pre p post. pats = pre @ p # post \<and> RegExp_new ext (regexSource p) = Inl e \<and>
      (\<forall>q\<in>set pre. \<exists>r. RegExp_new ext (regexSource q) = Inr r \<and> \<not> RegExp_test r n)"
  proof (induction pats)
    case Nil
    then show ?case by simp
  next
    case (Cons a ps)
    show ?case
    proof (cases "RegExp_new ext (regexSource a)")
      case (Inl e')
      with Cons.prems have "e' = e" by simp
      with Inl have "a # ps = [] @ a # ps \<and> RegExp_new ext (regexSource a) = Inl e \<and>
          (\<forall>q\<in>set []. \<exists>r. RegExp_new ext (regexSource q) = Inr r \<and> \<not> RegExp_test r n)"
        by simp
      then show ?thesis by blast
    next
      case (Inr r)
      with Cons.prems have nm: "\<not> RegExp_test r n" and rest: "isIgnored ext n ps = Inl e"
        by (simp_all split: if_splits)
      from Cons.IH [OF rest] obtain pre p post where d: "ps = pre @ p # post"
        "RegExp_new ext (regexSource p) = Inl e"
        "\<forall>q\<in>set pre. \<exists>r. RegExp_new ext (regexSource q) = Inr r \<and> \<not> RegExp_test r n"
        by blast
      with Inr nm have "a # ps = (a # pre) @ p # post \<and> RegExp_new ext (regexSource p) = Inl e \<and>
          (\<forall>q\<in>set (a # pre). \<exists>r. RegExp_new ext (regexSource q) = Inr r \<and> \<not> RegExp_test r n)"
        by simp
      then show ?thesis by blast
    qed
  qed
next
  assume "\<exists>pre p post. pats = pre @ p # post \<and> RegExp_new ext (regexSource p) = Inl e \<and>
      (\<forall>q\<in>set pre. \<exists>r. RegExp_new ext (regexSource q) = Inr r \<and> \<not> RegExp_test r n)"
  then obtain pre p post where pats: "pats = pre @ p # post"
    and p: "RegExp_new ext (regexSource p) = Inl e"
    and pre: "\<forall>q\<in>set pre. \<exists>r. RegExp_new ext (regexSource q) = Inr r \<and> \<not> RegExp_test r n"
    by blast
  from pre have "isIgnored ext n (pre @ p # post) = Inl e"
  proof (induction pre)
    case Nil
    with p show ?case by simp
  next
    case (Cons a pre)
    then obtain r where "RegExp_new ext (regexSource a) = Inr r" "\<not> RegExp_test r n"
      by auto
    with Cons show ?case by simp
  qed
  with pats show "isIgnored ext n pats = Inl e" by simp
qed

lemma isIgnored_False_iff:
  "isIgnored ext n pats = Inr False \<longleftrightarrow>
   (\<forall>q\<in>set pats. \<exists>r. RegExp_new ext (regexSource q) = Inr r \<and> \<not> RegExp_test r n)"
  by (induction pats) (auto split: sum.splits)

section \<open>The expression parser\<close>

text \<open>
  C4. For every string \<open>s\<close>: the segments \<open>split_OR s\<close>, with OR tokens put back between
  them, give \<open>s\<close>, and no segment has an OR token; the candidates are the segments
  trimmed, without the empty ones; trimming removes white space at both ends of a segment
  and nothing else, so a candidate is a non-empty contiguous part of \<open>s\<close>, with its case
  and punctuation, that neither starts nor ends with white space. A string without an OR
  token that is not only white space yields its trimmed self alone; an empty or
  white-space-only string yields nothing. The three examples of the specification hold.
\<close>

theorem expression_parser_contract:
  "(\<exists>seps. length (split_OR s) = length seps + 1 \<and> (\<forall>t\<in>set seps. isOrToken t) \<and>
            joinWith (split_OR s) seps = s) \<and>
   (\<forall>g\<in>set (split_OR s). \<not> hasOrToken g) \<and>
   parseLicenseExpression s = filter (\<lambda>c. c \<noteq> []) (map trim (split_OR s)) \<and>
   (\<forall>g. \<exists>l r. g = l @ trim g @ r \<and> (\<forall>c\<in>set l. isWhiteSpace c) \<and>
             (\<forall>c\<in>set r. isWhiteSpace c)) \<and>
   (\<forall>c\<in>set (parseLicenseExpression s).
      c \<noteq> [] \<and> sublist c s \<and> \<not> isWhiteSpace (hd c) \<and> \<not> isWhiteSpace (last c)) \<and>
   (\<not> hasOrToken s \<and> (\<exists>c\<in>set s. \<not> isWhiteSpace c) \<longrightarrow>
      parseLicenseExpression s = [trim s]) \<and>
   ((\<forall>c\<in>set s. isWhiteSpace c) \<longrightarrow> parseLicenseExpression s = []) \<and>
   parseLicenseExpression ''MIT OR Apache-2.0'' = [''MIT'', ''Apache-2.0''] \<and>
   parseLicenseExpression ''  '' = [] \<and>
   parseLicenseExpression ''ISC'' = [''ISC'']"
proof (intro conjI)
  show "\<exists>seps. length (split_OR s) = length seps + 1 \<and> (\<forall>t\<in>set seps. isOrToken t) \<and>
          joinWith (split_OR s) seps = s"
    by (rule split_OR_decomposition)
  show "\<forall>g\<in>set (split_OR s). \<not> hasOrToken g"
    by (simp add: split_OR_segments)
  show "parseLicenseExpression s = filter (\<lambda>c. c \<noteq> []) (map trim (split_OR s))"
    by (simp add: parseLicenseExpression_def)
  show "\<forall>g. \<exists>l r. g = l @ trim g @ r \<and> (\<forall>c\<in>set l. isWhiteSpace c) \<and>
          (\<forall>c\<in>set r. isWhiteSpace c)"
    by (simp add: trim_decomposition)
  show "\<forall>c\<in>set (parseLicenseExpression s).
      c \<noteq> [] \<and> sublist c s \<and> \<not> isWhiteSpace (hd c) \<and> \<not> isWhiteSpace (last c)"
    using parse_candidate by blast
  show "\<not> hasOrToken s \<and> (\<exists>c\<in>set s. \<not> isWhiteSpace c) \<longrightarrow>
      parseLicenseExpression s = [trim s]"
    using parse_no_token by blast
  show "(\<forall>c\<in>set s. isWhiteSpace c) \<longrightarrow> parseLicenseExpression s = []"
    using parse_blank by blast
  show "parseLicenseExpression ''MIT OR Apache-2.0'' = [''MIT'', ''Apache-2.0'']"
    by code_simp
  show "parseLicenseExpression ''  '' = []"
    by code_simp
  show "parseLicenseExpression ''ISC'' = [''ISC'']"
    by code_simp
qed

theorem expression_parser_contract_witness:
  "\<not> hasOrToken '' Apache License 2.0 '' \<and>
   (\<exists>c\<in>set '' Apache License 2.0 ''. \<not> isWhiteSpace c) \<and>
   parseLicenseExpression '' Apache License 2.0 '' = [trim '' Apache License 2.0 ''] \<and>
   trim '' Apache License 2.0 '' = ''Apache License 2.0'' \<and>
   list_all isWhiteSpace [CHR 0x20, CHR 0x09, CHR 0x0A] \<and>
   parseLicenseExpression [CHR 0x20, CHR 0x09, CHR 0x0A] = [] \<and>
   parseLicenseExpression ''(mit  or Apache-2.0)'' = [''(mit'', ''Apache-2.0)''] \<and>
   list_all (\<lambda>c. c \<noteq> [] \<and> sublist c ''(mit  or Apache-2.0)'' \<and> \<not> isWhiteSpace (hd c) \<and>
                  \<not> isWhiteSpace (last c))
     [''(mit'', ''Apache-2.0)'']"
proof -
  have h1: "\<not> hasOrToken '' Apache License 2.0 '' \<and>
            (\<exists>c\<in>set '' Apache License 2.0 ''. \<not> isWhiteSpace c)"
    by code_simp
  have h2: "\<forall>c\<in>set [CHR 0x20, CHR 0x09, CHR 0x0A]. isWhiteSpace c"
    by code_simp
  have t: "trim '' Apache License 2.0 '' = ''Apache License 2.0''"
    by code_simp
  have p: "parseLicenseExpression ''(mit  or Apache-2.0)'' = [''(mit'', ''Apache-2.0)'']"
    by code_simp
  note c1 = expression_parser_contract [of "'' Apache License 2.0 ''"]
  note c2 = expression_parser_contract [of "[CHR 0x20, CHR 0x09, CHR 0x0A]"]
  note c3 = expression_parser_contract [of "''(mit  or Apache-2.0)''"]
  from c1 have "\<not> hasOrToken '' Apache License 2.0 '' \<and>
      (\<exists>c\<in>set '' Apache License 2.0 ''. \<not> isWhiteSpace c) \<longrightarrow>
      parseLicenseExpression '' Apache License 2.0 '' = [trim '' Apache License 2.0 '']"
    by (rule conjunct2 [THEN conjunct2, THEN conjunct2, THEN conjunct2, THEN conjunct2,
          THEN conjunct1])
  from this h1
  have r1: "parseLicenseExpression '' Apache License 2.0 '' = [trim '' Apache License 2.0 '']"
    by (rule mp)
  from c2 have "(\<forall>c\<in>set [CHR 0x20, CHR 0x09, CHR 0x0A]. isWhiteSpace c) \<longrightarrow>
      parseLicenseExpression [CHR 0x20, CHR 0x09, CHR 0x0A] = []"
    by (rule conjunct2 [THEN conjunct2, THEN conjunct2, THEN conjunct2, THEN conjunct2,
          THEN conjunct2, THEN conjunct1])
  from this h2 have r2: "parseLicenseExpression [CHR 0x20, CHR 0x09, CHR 0x0A] = []"
    by (rule mp)
  from c3 have "\<forall>c\<in>set (parseLicenseExpression ''(mit  or Apache-2.0)'').
      c \<noteq> [] \<and> sublist c ''(mit  or Apache-2.0)'' \<and> \<not> isWhiteSpace (hd c) \<and>
      \<not> isWhiteSpace (last c)"
    by (rule conjunct2 [THEN conjunct2, THEN conjunct2, THEN conjunct2, THEN conjunct1])
  then have r3: "\<forall>c\<in>set [''(mit'', ''Apache-2.0)''].
      c \<noteq> [] \<and> sublist c ''(mit  or Apache-2.0)'' \<and> \<not> isWhiteSpace (hd c) \<and>
      \<not> isWhiteSpace (last c)"
    by (simp only: p)
  from h2 have h2': "list_all isWhiteSpace [CHR 0x20, CHR 0x09, CHR 0x0A]"
    by (simp only: list_all_iff)
  from r3 have r3': "list_all (\<lambda>c. c \<noteq> [] \<and> sublist c ''(mit  or Apache-2.0)'' \<and>
      \<not> isWhiteSpace (hd c) \<and> \<not> isWhiteSpace (last c)) [''(mit'', ''Apache-2.0)'']"
    by (simp only: list_all_iff)
  from h1 r1 t h2' r2 p r3' show ?thesis by (intro conjI) (erule conjunct1, erule conjunct2)
qed

section \<open>The glob matcher\<close>

text \<open>
  C7 as stated fails. The result depends on the order of the patterns when one of them
  does not compile: the name \<^verbatim>\<open>a\<close> is ignored by the patterns \<^verbatim>\<open>a\<close>, \<^verbatim>\<open>+\<close> in this order, and
  in the other order the call throws. And the pattern \<^verbatim>\<open>*\<close> does not match a name with a
  line feed, which \<^verbatim>\<open>.\<close> does not match.
\<close>

theorem glob_matcher_counterexample:
  "isIgnored noOtherSyntax ''a'' [''a'', ''+''] = Inr True \<and>
   isIgnored noOtherSyntax ''a'' [''+'', ''a''] = Inl SyntaxError \<and>
   isIgnored noOtherSyntax [CHR ''a'', CHR 0x0A, CHR ''b''] [''*''] = Inr False"
  by code_simp

text \<open>
  C7, amended. For patterns made of \<^verbatim>\<open>*\<close>, \<^verbatim>\<open>?\<close> and characters that are no syntax
  characters of a regular expression, and for every name: \<^verbatim>\<open>isIgnored\<close> returns, and it
  returns true exactly when the name matches at least one pattern as a glob, anchored at
  both ends and case-sensitive, where \<^verbatim>\<open>*\<close> stands for zero or more characters other than
  line terminators and \<^verbatim>\<open>?\<close> for exactly one such character. For a name without line
  terminators this is the match where \<^verbatim>\<open>*\<close> and \<^verbatim>\<open>?\<close> stand for any characters. The result
  does not depend on the order of the patterns; the empty list ignores nothing; the
  pattern \<^verbatim>\<open>*\<close> matches exactly the names without line terminators.
\<close>

theorem glob_matcher_contract:
  assumes "\<forall>p\<in>set pats. isGlobPattern p"
  shows "isIgnored ext n pats = Inr (\<exists>p\<in>set pats. globMatchesLine p n) \<and>
         ((\<forall>c\<in>set n. \<not> isLineTerminator c) \<longrightarrow>
            isIgnored ext n pats = Inr (\<exists>p\<in>set pats. globMatches p n)) \<and>
         (\<forall>pats'. set pats' = set pats \<longrightarrow> isIgnored ext n pats' = isIgnored ext n pats) \<and>
         isIgnored ext n [] = Inr False \<and>
         isIgnored ext n [''*''] = Inr (\<forall>c\<in>set n. \<not> isLineTerminator c) \<and>
         ((\<forall>c\<in>set n. \<not> isLineTerminator c) \<longrightarrow> isIgnored ext n [''*''] = Inr True) \<and>
         isIgnored ext ''@types/node'' [''@types/*''] = Inr True \<and>
         isIgnored ext ''lodash'' [''@types/*''] = Inr False \<and>
         isIgnored ext ''foo'' [''*''] = Inr True"
proof (intro conjI impI allI)
  from assms show "isIgnored ext n pats = Inr (\<exists>p\<in>set pats. globMatchesLine p n)"
    by (rule isIgnored_globLine)
next
  assume "\<forall>c\<in>set n. \<not> isLineTerminator c"
  with assms show "isIgnored ext n pats = Inr (\<exists>p\<in>set pats. globMatches p n)"
    by (rule isIgnored_glob)
next
  fix pats'
  assume eq: "set pats' = set pats"
  with assms have "\<forall>p\<in>set pats'. isGlobPattern p" by simp
  from isIgnored_globLine [OF this] isIgnored_globLine [OF assms] eq
  show "isIgnored ext n pats' = isIgnored ext n pats" by simp
next
  show "isIgnored ext n [] = Inr False" by simp
next
  have star: "\<forall>p\<in>set [''*'']. isGlobPattern p" by (simp add: isGlobPattern_def)
  from isIgnored_globLine [OF star]
  show all: "isIgnored ext n [''*''] = Inr (\<forall>c\<in>set n. \<not> isLineTerminator c)"
    by (simp add: globMatchesLine_star)
  assume "\<forall>c\<in>set n. \<not> isLineTerminator c"
  with all show "isIgnored ext n [''*''] = Inr True" by simp
next
  show "isIgnored ext ''@types/node'' [''@types/*''] = Inr True" by code_simp
next
  show "isIgnored ext ''lodash'' [''@types/*''] = Inr False" by code_simp
next
  show "isIgnored ext ''foo'' [''*''] = Inr True" by code_simp
qed

theorem glob_matcher_contract_witness:
  "list_all isGlobPattern [''lodash'', ''@scope/pkg-?'', ''eslint-*''] \<and>
   list_all (\<lambda>c. \<not> isLineTerminator c) ''eslint-plugin-react'' \<and>
   isIgnored noOtherSyntax ''eslint-plugin-react'' [''lodash'', ''@scope/pkg-?'', ''eslint-*''] = Inr True \<and>
   isIgnored noOtherSyntax ''eslint-plugin-react'' [''eslint-*'', ''lodash'', ''@scope/pkg-?''] = Inr True \<and>
   isIgnored noOtherSyntax ''Lodash'' [''lodash'', ''@scope/pkg-?'', ''eslint-*''] = Inr False \<and>
   isIgnored noOtherSyntax ''lodash-es'' [''lodash'', ''@scope/pkg-?'', ''eslint-*''] = Inr False \<and>
   isIgnored noOtherSyntax ''@scope/pkg-ab'' [''lodash'', ''@scope/pkg-?'', ''eslint-*''] = Inr False \<and>
   list_all isGlobPattern [''a?b'', ''a*b'', [CHR ''a'', CHR 0x0A, CHR ''*'']] \<and>
   isIgnored noOtherSyntax [CHR ''a'', CHR 0x0A, CHR ''b'']
     [''a?b'', ''a*b'', [CHR ''a'', CHR 0x0A, CHR ''*'']] = Inr True \<and>
   isIgnored noOtherSyntax [CHR ''a'', CHR 0x0D, CHR ''b'']
     [''a?b'', ''a*b'', [CHR ''a'', CHR 0x0A, CHR ''*'']] = Inr False \<and>
   isIgnored noOtherSyntax [CHR ''a'', CHR 0x0D, CHR ''b''] [''*''] = Inr False"
proof -
  let ?pats = "[''lodash'', ''@scope/pkg-?'', ''eslint-*'']"
  let ?lines = "[''a?b'', ''a*b'', [CHR ''a'', CHR 0x0A, CHR ''*'']]"
  have h: "\<forall>p\<in>set ?pats. isGlobPattern p" by code_simp
  have hl: "\<forall>p\<in>set ?lines. isGlobPattern p" by code_simp
  have n1: "\<forall>c\<in>set ''eslint-plugin-react''. \<not> isLineTerminator c" by code_simp
  have n2: "\<forall>c\<in>set ''Lodash''. \<not> isLineTerminator c" by code_simp
  have n3: "\<forall>c\<in>set ''lodash-es''. \<not> isLineTerminator c" by code_simp
  have n4: "\<forall>c\<in>set ''@scope/pkg-ab''. \<not> isLineTerminator c" by code_simp
  have g1: "(\<exists>p\<in>set ?pats. globMatches p ''eslint-plugin-react'') = True" by code_simp
  have g2: "(\<exists>p\<in>set ?pats. globMatches p ''Lodash'') = False" by code_simp
  have g3: "(\<exists>p\<in>set ?pats. globMatches p ''lodash-es'') = False" by code_simp
  have g4: "(\<exists>p\<in>set ?pats. globMatches p ''@scope/pkg-ab'') = False" by code_simp
  have g5: "(\<exists>p\<in>set ?lines. globMatchesLine p [CHR ''a'', CHR 0x0A, CHR ''b'']) = True"
    by code_simp
  have g6: "(\<exists>p\<in>set ?lines. globMatchesLine p [CHR ''a'', CHR 0x0D, CHR ''b'']) = False"
    by code_simp
  have g7: "(\<forall>c\<in>set [CHR ''a'', CHR 0x0D, CHR ''b'']. \<not> isLineTerminator c) = False"
    by code_simp
  have s: "set [''eslint-*'', ''lodash'', ''@scope/pkg-?''] = set ?pats"
    by (simp add: insert_commute)
  note c = glob_matcher_contract [OF h]
  note cl = glob_matcher_contract [OF hl]
  from c [where n = "''eslint-plugin-react''" and ext = noOtherSyntax]
  have "(\<forall>c\<in>set ''eslint-plugin-react''. \<not> isLineTerminator c) \<longrightarrow>
        isIgnored noOtherSyntax ''eslint-plugin-react'' ?pats =
          Inr (\<exists>p\<in>set ?pats. globMatches p ''eslint-plugin-react'')"
    by (rule conjunct2 [THEN conjunct1])
  from this n1 have "isIgnored noOtherSyntax ''eslint-plugin-react'' ?pats =
      Inr (\<exists>p\<in>set ?pats. globMatches p ''eslint-plugin-react'')"
    by (rule mp)
  then have r1: "isIgnored noOtherSyntax ''eslint-plugin-react'' ?pats = Inr True" by (simp only: g1)
  from c [where n = "''eslint-plugin-react''" and ext = noOtherSyntax]
  have "\<forall>pats'. set pats' = set ?pats \<longrightarrow>
          isIgnored noOtherSyntax ''eslint-plugin-react'' pats' = isIgnored noOtherSyntax ''eslint-plugin-react'' ?pats"
    by (rule conjunct2 [THEN conjunct2, THEN conjunct1])
  then have "set [''eslint-*'', ''lodash'', ''@scope/pkg-?''] = set ?pats \<longrightarrow>
      isIgnored noOtherSyntax ''eslint-plugin-react'' [''eslint-*'', ''lodash'', ''@scope/pkg-?''] =
      isIgnored noOtherSyntax ''eslint-plugin-react'' ?pats"
    by (rule spec)
  from this s have "isIgnored noOtherSyntax ''eslint-plugin-react'' [''eslint-*'', ''lodash'', ''@scope/pkg-?''] =
      isIgnored noOtherSyntax ''eslint-plugin-react'' ?pats"
    by (rule mp)
  with r1 have r1': "isIgnored noOtherSyntax ''eslint-plugin-react'' [''eslint-*'', ''lodash'', ''@scope/pkg-?''] = Inr True"
    by (simp only:)
  from c [where n = "''Lodash''" and ext = noOtherSyntax]
  have "(\<forall>c\<in>set ''Lodash''. \<not> isLineTerminator c) \<longrightarrow>
        isIgnored noOtherSyntax ''Lodash'' ?pats = Inr (\<exists>p\<in>set ?pats. globMatches p ''Lodash'')"
    by (rule conjunct2 [THEN conjunct1])
  from this n2 have "isIgnored noOtherSyntax ''Lodash'' ?pats = Inr (\<exists>p\<in>set ?pats. globMatches p ''Lodash'')"
    by (rule mp)
  then have r2: "isIgnored noOtherSyntax ''Lodash'' ?pats = Inr False" by (simp only: g2)
  from c [where n = "''lodash-es''" and ext = noOtherSyntax]
  have "(\<forall>c\<in>set ''lodash-es''. \<not> isLineTerminator c) \<longrightarrow>
        isIgnored noOtherSyntax ''lodash-es'' ?pats = Inr (\<exists>p\<in>set ?pats. globMatches p ''lodash-es'')"
    by (rule conjunct2 [THEN conjunct1])
  from this n3 have "isIgnored noOtherSyntax ''lodash-es'' ?pats = Inr (\<exists>p\<in>set ?pats. globMatches p ''lodash-es'')"
    by (rule mp)
  then have r3: "isIgnored noOtherSyntax ''lodash-es'' ?pats = Inr False" by (simp only: g3)
  from c [where n = "''@scope/pkg-ab''" and ext = noOtherSyntax]
  have "(\<forall>c\<in>set ''@scope/pkg-ab''. \<not> isLineTerminator c) \<longrightarrow>
        isIgnored noOtherSyntax ''@scope/pkg-ab'' ?pats = Inr (\<exists>p\<in>set ?pats. globMatches p ''@scope/pkg-ab'')"
    by (rule conjunct2 [THEN conjunct1])
  from this n4
  have "isIgnored noOtherSyntax ''@scope/pkg-ab'' ?pats = Inr (\<exists>p\<in>set ?pats. globMatches p ''@scope/pkg-ab'')"
    by (rule mp)
  then have r4: "isIgnored noOtherSyntax ''@scope/pkg-ab'' ?pats = Inr False" by (simp only: g4)
  from cl [where n = "[CHR ''a'', CHR 0x0A, CHR ''b'']" and ext = noOtherSyntax]
  have "isIgnored noOtherSyntax [CHR ''a'', CHR 0x0A, CHR ''b''] ?lines =
          Inr (\<exists>p\<in>set ?lines. globMatchesLine p [CHR ''a'', CHR 0x0A, CHR ''b''])"
    by (rule conjunct1)
  then have r5: "isIgnored noOtherSyntax [CHR ''a'', CHR 0x0A, CHR ''b''] ?lines = Inr True"
    by (simp only: g5)
  from cl [where n = "[CHR ''a'', CHR 0x0D, CHR ''b'']" and ext = noOtherSyntax]
  have "isIgnored noOtherSyntax [CHR ''a'', CHR 0x0D, CHR ''b''] ?lines =
          Inr (\<exists>p\<in>set ?lines. globMatchesLine p [CHR ''a'', CHR 0x0D, CHR ''b''])"
    by (rule conjunct1)
  then have r6: "isIgnored noOtherSyntax [CHR ''a'', CHR 0x0D, CHR ''b''] ?lines = Inr False"
    by (simp only: g6)
  from cl [where n = "[CHR ''a'', CHR 0x0D, CHR ''b'']" and ext = noOtherSyntax]
  have "isIgnored noOtherSyntax [CHR ''a'', CHR 0x0D, CHR ''b''] [''*''] =
          Inr (\<forall>c\<in>set [CHR ''a'', CHR 0x0D, CHR ''b'']. \<not> isLineTerminator c)"
    by (rule conjunct2 [THEN conjunct2, THEN conjunct2, THEN conjunct2, THEN conjunct1])
  then have r7: "isIgnored noOtherSyntax [CHR ''a'', CHR 0x0D, CHR ''b''] [''*''] = Inr False"
    by (simp only: g7)
  from h have h': "list_all isGlobPattern ?pats" by (simp only: list_all_iff)
  from hl have hl': "list_all isGlobPattern ?lines" by (simp only: list_all_iff)
  from n1 have n1': "list_all (\<lambda>c. \<not> isLineTerminator c) ''eslint-plugin-react''"
    by (simp only: list_all_iff)
  from h' n1' r1 r1' r2 r3 r4 hl' r5 r6 r7 show ?thesis by (intro conjI)
qed

section \<open>Deny dominates allow\<close>

text \<open>
  C1 as stated fails in its parenthesis: a package whose license is denied does not
  always yield a violation. The license \<^verbatim>\<open>UNKNOWN\<close> with the disallowed entry \<^verbatim>\<open>UNKNOWN\<close> is
  non-compliant for the evaluator, and the run passes the package over with a warning;
  the package \<^verbatim>\<open>eslint-plugin-foo\<close> with the denied license \<^verbatim>\<open>GPL-3.0-only\<close> is passed over
  when the pattern \<^verbatim>\<open>eslint-*\<close> ignores it.
\<close>

theorem deny_without_violation_counterexample:
  "parseLicenseExpression ''UNKNOWN'' = [''UNKNOWN''] \<and>
   sublist (toLowerCase ''UNKNOWN'') (toLowerCase ''UNKNOWN'') \<and>
   isLicenseAllowed ''UNKNOWN'' [''UNKNOWN''] [''UNKNOWN''] =
     \<lparr>is_allowed = False,
      reason = Some (''License '' @ [CHR 0x27] @ ''UNKNOWN'' @ [CHR 0x27] @ '' is not allowed'')\<rparr> \<and>
   checkLicenseCompliance noOtherSyntax
     [\<lparr>name = ''u'', version = ''1.0.0'', license = JString ''UNKNOWN'', path = ''/u''\<rparr>]
     \<lparr>allowed = Some [''UNKNOWN''], disallowed = Some [''UNKNOWN''], ignores = None\<rparr> =
     \<lparr>console = [''u: No license information found''], completion = Inr []\<rparr> \<and>
   parseLicenseExpression ''GPL-3.0-only'' = [''GPL-3.0-only''] \<and>
   sublist (toLowerCase ''GPL-3.0-only'') (toLowerCase ''GPL-3.0-only'') \<and>
   isLicenseAllowed ''GPL-3.0-only'' [] [''GPL-3.0-only''] =
     \<lparr>is_allowed = False,
      reason = Some (''License '' @ [CHR 0x27] @ ''GPL-3.0-only'' @ [CHR 0x27] @ '' is not allowed'')\<rparr> \<and>
   checkLicenseCompliance noOtherSyntax
     [\<lparr>name = ''eslint-plugin-foo'', version = ''1.0.0'', license = JString ''GPL-3.0-only'',
       path = ''/e''\<rparr>]
     \<lparr>allowed = None, disallowed = Some [''GPL-3.0-only''], ignores = Some [''eslint-*'']\<rparr> =
     \<lparr>console = [], completion = Inr []\<rparr>"
  by code_simp

text \<open>
  C1, amended. For every license string and every disallowed list: if some candidate \<open>c\<close>
  produced by parsing the license contains, after both are put in lower case, some entry
  \<open>d\<close> of the disallowed list, then the evaluator returns non-compliant whatever the
  allowed list is, with the reason \<^verbatim>\<open>License '<c0>' is not allowed\<close>, where \<open>c0\<close> is the first
  candidate that contains a disallowed entry. And in every run that returns with this
  disallowed list, every package that has this license, is not ignored, and whose
  license is not the sentinel \<^verbatim>\<open>UNKNOWN\<close>, has a violation in the result, with its name, its
  raw license and that reason.
\<close>

theorem deny_dominates_allow:
  assumes "c \<in> set (parseLicenseExpression lic)"
    and "d \<in> set dis"
    and "sublist (toLowerCase d) (toLowerCase c)"
  shows "\<exists>pre c0 post.
           parseLicenseExpression lic = pre @ c0 # post \<and>
           (\<exists>d0\<in>set dis. sublist (toLowerCase d0) (toLowerCase c0)) \<and>
           (\<forall>y\<in>set pre. \<forall>d0\<in>set dis. \<not> sublist (toLowerCase d0) (toLowerCase y)) \<and>
           (\<forall>al. isLicenseAllowed lic al dis =
              \<lparr>is_allowed = False,
               reason = Some (''License '' @ [CHR 0x27] @ c0 @ [CHR 0x27] @ '' is not allowed'')\<rparr>) \<and>
           (\<forall>ext pkgs opts res pkg.
              completion (checkLicenseCompliance ext pkgs opts) = Inr res \<and>
              orEmpty (disallowed opts) = dis \<and> pkg \<in> set pkgs \<and>
              license pkg = JString lic \<and> lic \<noteq> ''UNKNOWN'' \<and>
              isIgnored ext (name pkg) (orEmpty (ignores opts)) = Inr False \<longrightarrow>
              \<lparr>package = name pkg, vlicense = lic,
               vreason = ''License '' @ [CHR 0x27] @ c0 @ [CHR 0x27] @ '' is not allowed''\<rparr>
                \<in> set res)"
proof -
  from assms have "\<exists>l\<in>set (parseLicenseExpression lic). matchesAny l dis"
    by (auto simp: matchesAny_sublist)
  from checkLicenses_denied [OF this] obtain pre c0 post
    where p: "parseLicenseExpression lic = pre @ c0 # post"
      and m: "matchesAny c0 dis" "\<forall>y\<in>set pre. \<not> matchesAny y dis"
      and r: "\<forall>al. isLicenseAllowed lic al dis =
                \<lparr>is_allowed = False, reason = Some (denyReason c0)\<rparr>"
    unfolding isLicenseAllowed_def by blast
  have run: "\<lparr>package = name pkg, vlicense = lic, vreason = denyReason c0\<rparr> \<in> set res"
    if "completion (checkLicenseCompliance ext pkgs opts) = Inr res"
      and "orEmpty (disallowed opts) = dis" and "pkg \<in> set pkgs"
      and "license pkg = JString lic" and "lic \<noteq> ''UNKNOWN''"
      and "isIgnored ext (name pkg) (orEmpty (ignores opts)) = Inr False"
    for ext pkgs opts res pkg
    unfolding checkLicenseCompliance_violation [OF that(1)]
    using that(2-6) r
    by (intro bexI [of _ pkg] exI [of _ lic]) simp_all
  from m have "\<exists>d0\<in>set dis. sublist (toLowerCase d0) (toLowerCase c0)"
    and "\<forall>y\<in>set pre. \<forall>d0\<in>set dis. \<not> sublist (toLowerCase d0) (toLowerCase y)"
    by (simp_all add: matchesAny_sublist)
  with p r run show ?thesis
    unfolding denyReason_text by blast
qed

theorem deny_dominates_allow_witness:
  "(let lic = ''MIT OR GPL-3.0-only'';
        pkgs = [\<lparr>name = ''a'', version = ''1.0.0'', license = JString ''MIT'', path = ''/a''\<rparr>,
                \<lparr>name = ''b'', version = ''2.0.0'', license = JString lic, path = ''/b''\<rparr>];
        opts = \<lparr>allowed = Some [''MIT'', ''GPL-3.0-only''], disallowed = Some [''gpl-3.0''],
                ignores = Some [''@types/*'']\<rparr>;
        text = ''License '' @ [CHR 0x27] @ ''GPL-3.0-only'' @ [CHR 0x27] @ '' is not allowed'';
        res = [\<lparr>package = ''b'', vlicense = lic, vreason = text\<rparr>]
    in ''GPL-3.0-only'' \<in> set (parseLicenseExpression lic) \<and>
       ''gpl-3.0'' \<in> set [''gpl-3.0''] \<and>
       sublist (toLowerCase ''gpl-3.0'') (toLowerCase ''GPL-3.0-only'') \<and>
       isLicenseAllowed lic [''MIT'', ''GPL-3.0-only''] [''gpl-3.0''] =
         \<lparr>is_allowed = False, reason = Some text\<rparr> \<and>
       completion (checkLicenseCompliance noOtherSyntax pkgs opts) = Inr res \<and>
       \<lparr>package = ''b'', vlicense = lic, vreason = text\<rparr> \<in> set res)"
proof -
  define lic where "lic = ''MIT OR GPL-3.0-only''"
  define b where
    "b = \<lparr>name = ''b'', version = ''2.0.0'', license = JString lic, path = ''/b''\<rparr>"
  define pkgs where
    "pkgs = [\<lparr>name = ''a'', version = ''1.0.0'', license = JString ''MIT'', path = ''/a''\<rparr>, b]"
  define opts where "opts = \<lparr>allowed = Some [''MIT'', ''GPL-3.0-only''],
    disallowed = Some [''gpl-3.0''], ignores = Some [''@types/*'']\<rparr>"
  define res where
    "res = [\<lparr>package = ''b'', vlicense = lic,
             vreason = ''License '' @ [CHR 0x27] @ ''GPL-3.0-only'' @ [CHR 0x27] @
                       '' is not allowed''\<rparr>]"
  have h1: "''GPL-3.0-only'' \<in> set (parseLicenseExpression lic)"
    unfolding lic_def by code_simp
  have h2: "''gpl-3.0'' \<in> set [''gpl-3.0'']" by simp
  have h3: "sublist (toLowerCase ''gpl-3.0'') (toLowerCase ''GPL-3.0-only'')"
    by code_simp
  have e: "the (reason (isLicenseAllowed lic [''MIT'', ''GPL-3.0-only''] [''gpl-3.0''])) =
           ''License '' @ [CHR 0x27] @ ''GPL-3.0-only'' @ [CHR 0x27] @ '' is not allowed''"
    unfolding lic_def by code_simp
  have run: "completion (checkLicenseCompliance noOtherSyntax pkgs opts) = Inr res"
    unfolding pkgs_def b_def opts_def res_def lic_def by code_simp
  have g: "orEmpty (disallowed opts) = [''gpl-3.0''] \<and> b \<in> set pkgs \<and>
           license b = JString lic \<and> lic \<noteq> ''UNKNOWN'' \<and>
           isIgnored noOtherSyntax (name b) (orEmpty (ignores opts)) = Inr False"
    unfolding pkgs_def b_def opts_def lic_def by code_simp
  from deny_dominates_allow [OF h1 h2 h3] obtain c0
    where r: "\<forall>al. isLicenseAllowed lic al [''gpl-3.0''] =
                \<lparr>is_allowed = False,
                 reason = Some (''License '' @ [CHR 0x27] @ c0 @ [CHR 0x27] @ '' is not allowed'')\<rparr>"
      and v: "\<forall>ext pkgs opts res pkg.
                completion (checkLicenseCompliance ext pkgs opts) = Inr res \<and>
                orEmpty (disallowed opts) = [''gpl-3.0''] \<and> pkg \<in> set pkgs \<and>
                license pkg = JString lic \<and> lic \<noteq> ''UNKNOWN'' \<and>
                isIgnored ext (name pkg) (orEmpty (ignores opts)) = Inr False \<longrightarrow>
                \<lparr>package = name pkg, vlicense = lic,
                 vreason = ''License '' @ [CHR 0x27] @ c0 @ [CHR 0x27] @ '' is not allowed''\<rparr>
                  \<in> set res"
    by (elim exE conjE)
  from r have r': "isLicenseAllowed lic [''MIT'', ''GPL-3.0-only''] [''gpl-3.0''] =
      \<lparr>is_allowed = False,
       reason = Some (''License '' @ [CHR 0x27] @ c0 @ [CHR 0x27] @ '' is not allowed'')\<rparr>"
    by (rule spec)
  have "the (reason (isLicenseAllowed lic [''MIT'', ''GPL-3.0-only''] [''gpl-3.0''])) =
        ''License '' @ [CHR 0x27] @ c0 @ [CHR 0x27] @ '' is not allowed''"
    by (simp only: r' LicenseCheck.select_convs option.sel)
  with e have "''License '' @ [CHR 0x27] @ c0 @ [CHR 0x27] @ '' is not allowed'' =
      ''License '' @ [CHR 0x27] @ ''GPL-3.0-only'' @ [CHR 0x27] @ '' is not allowed''"
    by (simp only:)
  then have c0: "c0 = ''GPL-3.0-only''"
    by (simp only: same_append_eq append_same_eq)
  from v have "completion (checkLicenseCompliance noOtherSyntax pkgs opts) = Inr res \<and>
      orEmpty (disallowed opts) = [''gpl-3.0''] \<and> b \<in> set pkgs \<and>
      license b = JString lic \<and> lic \<noteq> ''UNKNOWN'' \<and>
      isIgnored noOtherSyntax (name b) (orEmpty (ignores opts)) = Inr False \<longrightarrow>
      \<lparr>package = name b, vlicense = lic,
       vreason = ''License '' @ [CHR 0x27] @ c0 @ [CHR 0x27] @ '' is not allowed''\<rparr>
        \<in> set res"
    by (elim allE)
  from this conjI [OF run g]
  have "\<lparr>package = name b, vlicense = lic,
         vreason = ''License '' @ [CHR 0x27] @ c0 @ [CHR 0x27] @ '' is not allowed''\<rparr> \<in> set res"
    by (rule mp)
  then have m: "\<lparr>package = ''b'', vlicense = lic,
         vreason = ''License '' @ [CHR 0x27] @ ''GPL-3.0-only'' @ [CHR 0x27] @
                   '' is not allowed''\<rparr> \<in> set res"
    by (simp only: c0 b_def PackageInfo.select_convs)
  from r' have r'': "isLicenseAllowed lic [''MIT'', ''GPL-3.0-only''] [''gpl-3.0''] =
      \<lparr>is_allowed = False,
       reason = Some (''License '' @ [CHR 0x27] @ ''GPL-3.0-only'' @ [CHR 0x27] @
                      '' is not allowed'')\<rparr>"
    by (simp only: c0)
  from h1 h2 h3 r'' run m show ?thesis
    unfolding Let_def pkgs_def b_def res_def opts_def lic_def
    by (intro conjI)
qed

text \<open>
  C3 as stated fails: the candidate \<^verbatim>\<open>GPL-3.0\<close> is a substring of the disallowed entry
  \<^verbatim>\<open>GPL-3.0-only\<close>, and the package is not reported. The source tests
  \<^verbatim>\<open>lowerLicense.includes(d.toLowerCase())\<close>: the entry must occur in the candidate.
\<close>

theorem substring_of_entry_counterexample:
  "includesStr (toLowerCase ''GPL-3.0-only'') (toLowerCase ''GPL-3.0'') \<and>
   sublist (toLowerCase ''GPL-3.0'') (toLowerCase ''GPL-3.0-only'') \<and>
   parseLicenseExpression ''GPL-3.0'' = [''GPL-3.0''] \<and>
   checkLicenseCompliance noOtherSyntax
     [\<lparr>name = ''p'', version = ''1.0.0'', license = JString ''GPL-3.0'', path = ''/p''\<rparr>]
     \<lparr>allowed = None, disallowed = Some [''GPL-3.0-only''], ignores = None\<rparr> =
   \<lparr>console = [], completion = Inr []\<rparr>"
  by code_simp

text \<open>
  C3, amended. In a run that returns, every package that is not ignored, whose license is
  a string other than the sentinel \<^verbatim>\<open>UNKNOWN\<close>, and one of whose candidates contains,
  case-insensitively, an entry of the disallowed list, has a violation in the result,
  with its name, its raw license and the reason \<^verbatim>\<open>License '<c0>' is not allowed\<close>, where \<open>c0\<close>
  is the first candidate of the license that contains a disallowed entry, whatever the
  allowed list is.
\<close>

theorem denied_package_is_reported:
  assumes "completion (checkLicenseCompliance ext pkgs opts) = Inr res"
    and "pkg \<in> set pkgs"
    and "isIgnored ext (name pkg) (orEmpty (ignores opts)) = Inr False"
    and "license pkg = JString lic"
    and "lic \<noteq> ''UNKNOWN''"
    and "c \<in> set (parseLicenseExpression lic)"
    and "d \<in> set (orEmpty (disallowed opts))"
    and "sublist (toLowerCase d) (toLowerCase c)"
  shows "\<exists>pre c0 post.
           parseLicenseExpression lic = pre @ c0 # post \<and>
           (\<exists>d0\<in>set (orEmpty (disallowed opts)). sublist (toLowerCase d0) (toLowerCase c0)) \<and>
           (\<forall>y\<in>set pre. \<forall>d0\<in>set (orEmpty (disallowed opts)).
              \<not> sublist (toLowerCase d0) (toLowerCase y)) \<and>
           \<lparr>package = name pkg, vlicense = lic,
            vreason = ''License '' @ [CHR 0x27] @ c0 @ [CHR 0x27] @ '' is not allowed''\<rparr>
             \<in> set res"
proof -
  let ?al = "orEmpty (allowed opts)" and ?dis = "orEmpty (disallowed opts)"
  from assms(6-8) have "\<exists>l\<in>set (parseLicenseExpression lic). matchesAny l ?dis"
    by (auto simp: matchesAny_sublist)
  from checkLicenses_denied [OF this] obtain pre c0 post
    where p: "parseLicenseExpression lic = pre @ c0 # post"
      and m: "matchesAny c0 ?dis" "\<forall>y\<in>set pre. \<not> matchesAny y ?dis"
      and r: "isLicenseAllowed lic ?al ?dis =
                \<lparr>is_allowed = False, reason = Some (denyReason c0)\<rparr>"
    unfolding isLicenseAllowed_def by blast
  have "\<lparr>package = name pkg, vlicense = lic, vreason = denyReason c0\<rparr> \<in> set res"
    unfolding checkLicenseCompliance_violation [OF assms(1)]
    using assms(2-5) r
    by (intro bexI [of _ pkg] exI [of _ lic]) simp_all
  moreover from m have "\<exists>d0\<in>set ?dis. sublist (toLowerCase d0) (toLowerCase c0)"
    and "\<forall>y\<in>set pre. \<forall>d0\<in>set ?dis. \<not> sublist (toLowerCase d0) (toLowerCase y)"
    by (simp_all add: matchesAny_sublist)
  ultimately show ?thesis using p
    unfolding denyReason_text by blast
qed

theorem denied_package_is_reported_witness:
  "(let lic = ''GPL-3.0-only WITH Classpath-exception-2.0'';
        pkg = \<lparr>name = ''b'', version = ''2.1.0'', license = JString lic, path = ''/b''\<rparr>;
        pkgs = [\<lparr>name = ''a'', version = ''1.0.0'', license = JString ''MIT'', path = ''/a''\<rparr>, pkg];
        opts = \<lparr>allowed = Some [''MIT'', ''GPL-3.0-only''], disallowed = Some [''GPL-3.0-only''],
                ignores = Some [''@types/*'']\<rparr>;
        res = [\<lparr>package = ''b'', vlicense = lic,
                vreason = ''License '' @ [CHR 0x27] @ lic @ [CHR 0x27] @ '' is not allowed''\<rparr>]
    in completion (checkLicenseCompliance noOtherSyntax pkgs opts) = Inr res \<and>
       pkg \<in> set pkgs \<and>
       isIgnored noOtherSyntax (name pkg) (orEmpty (ignores opts)) = Inr False \<and>
       license pkg = JString lic \<and> lic \<noteq> ''UNKNOWN'' \<and>
       lic \<in> set (parseLicenseExpression lic) \<and>
       ''GPL-3.0-only'' \<in> set (orEmpty (disallowed opts)) \<and>
       sublist (toLowerCase ''GPL-3.0-only'') (toLowerCase lic) \<and>
       (\<exists>pre c0 post.
          parseLicenseExpression lic = pre @ c0 # post \<and>
          (\<exists>d0\<in>set (orEmpty (disallowed opts)). sublist (toLowerCase d0) (toLowerCase c0)) \<and>
          (\<forall>y\<in>set pre. \<forall>d0\<in>set (orEmpty (disallowed opts)).
             \<not> sublist (toLowerCase d0) (toLowerCase y)) \<and>
          \<lparr>package = name pkg, vlicense = lic,
           vreason = ''License '' @ [CHR 0x27] @ c0 @ [CHR 0x27] @ '' is not allowed''\<rparr>
            \<in> set res))"
proof -
  define lic where "lic = ''GPL-3.0-only WITH Classpath-exception-2.0''"
  define pkg where
    "pkg = \<lparr>name = ''b'', version = ''2.1.0'', license = JString lic, path = ''/b''\<rparr>"
  define pkgs where
    "pkgs = [\<lparr>name = ''a'', version = ''1.0.0'', license = JString ''MIT'', path = ''/a''\<rparr>, pkg]"
  define opts where "opts = \<lparr>allowed = Some [''MIT'', ''GPL-3.0-only''],
    disallowed = Some [''GPL-3.0-only''], ignores = Some [''@types/*'']\<rparr>"
  define res where
    "res = [\<lparr>package = ''b'', vlicense = lic,
             vreason = ''License '' @ [CHR 0x27] @ lic @ [CHR 0x27] @ '' is not allowed''\<rparr>]"
  have h1: "completion (checkLicenseCompliance noOtherSyntax pkgs opts) = Inr res"
    unfolding pkgs_def pkg_def opts_def res_def lic_def by code_simp
  have h2: "pkg \<in> set pkgs" by (simp add: pkgs_def)
  have h3: "isIgnored noOtherSyntax (name pkg) (orEmpty (ignores opts)) = Inr False"
    unfolding pkg_def opts_def by code_simp
  have h4: "license pkg = JString lic" by (simp add: pkg_def)
  have h5: "lic \<noteq> ''UNKNOWN''" by (simp add: lic_def)
  have h6: "lic \<in> set (parseLicenseExpression lic)"
    unfolding lic_def by code_simp
  have h7: "''GPL-3.0-only'' \<in> set (orEmpty (disallowed opts))"
    unfolding opts_def by code_simp
  have h8: "sublist (toLowerCase ''GPL-3.0-only'') (toLowerCase lic)"
    unfolding lic_def by code_simp
  note c = denied_package_is_reported [OF h1 h2 h3 h4 h5 h6 h7 h8]
  from h1 h2 h3 h4 h5 h6 h7 h8 c show ?thesis
    unfolding Let_def lic_def [symmetric] pkg_def [symmetric] pkgs_def [symmetric]
      opts_def [symmetric] res_def [symmetric]
    by (intro conjI)
qed

section \<open>Licenses without candidates\<close>

text \<open>
  C2 as stated fails: for the license of two spaces parsing yields no candidate, and the
  evaluator does not fall back to the raw string. Its reason lists no candidate, where
  the checks run on the raw string as the single candidate would list it, and with an
  empty allowed list the license passes without a reason.
\<close>

theorem blank_license_counterexample:
  "parseLicenseExpression ''  '' = [] \<and> parseLicenseExpression '' OR '' = [] \<and>
   isLicenseAllowed ''  '' [''MIT''] [] = \<lparr>is_allowed = False, reason = Some (allowReason [])\<rparr> \<and>
   checkLicenses [''  ''] [''MIT''] [] = \<lparr>is_allowed = False, reason = Some (allowReason [''  ''])\<rparr> \<and>
   allowReason [] \<noteq> allowReason [''  ''] \<and>
   isLicenseAllowed ''  '' [] [''GPL-3.0-only''] = \<lparr>is_allowed = True, reason = None\<rparr>"
  by code_simp

text \<open>
  C2, amended. An empty or white-space-only license has no candidate; parsing yields no
  candidate exactly when every segment between the separators is empty or white space
  only. When parsing yields no candidate, the evaluator runs both checks over the empty
  list of candidates: nothing is denied, the license is compliant when the allowed list
  is empty, and otherwise non-compliant with a reason that lists no candidate.
\<close>

theorem no_candidates_no_fallback:
  "((\<forall>c\<in>set lic. isWhiteSpace c) \<longrightarrow> parseLicenseExpression lic = []) \<and>
   (parseLicenseExpression lic = [] \<longleftrightarrow>
      (\<forall>g\<in>set (split_OR lic). \<forall>c\<in>set g. isWhiteSpace c)) \<and>
   (parseLicenseExpression lic = [] \<longrightarrow>
      isLicenseAllowed lic al dis =
        (if al = [] then \<lparr>is_allowed = True, reason = None\<rparr>
         else \<lparr>is_allowed = False, reason = Some (allowReason [])\<rparr>))"
proof (intro conjI impI)
  assume "\<forall>c\<in>set lic. isWhiteSpace c"
  then show "parseLicenseExpression lic = []" by (rule parse_blank)
next
  show "parseLicenseExpression lic = [] \<longleftrightarrow>
          (\<forall>g\<in>set (split_OR lic). \<forall>c\<in>set g. isWhiteSpace c)"
    by (rule parse_Nil_iff)
next
  assume none: "parseLicenseExpression lic = []"
  then have "\<forall>l\<in>set (parseLicenseExpression lic). \<not> matchesAny l dis" by simp
  then have "checkLicenses (parseLicenseExpression lic) al dis =
               (if al \<noteq> [] \<and> (\<forall>l\<in>set (parseLicenseExpression lic). \<not> matchesAny l al)
                then \<lparr>is_allowed = False, reason = Some (allowReason (parseLicenseExpression lic))\<rparr>
                else \<lparr>is_allowed = True, reason = None\<rparr>)"
    by (rule checkLicenses_not_denied)
  with none show "isLicenseAllowed lic al dis =
        (if al = [] then \<lparr>is_allowed = True, reason = None\<rparr>
         else \<lparr>is_allowed = False, reason = Some (allowReason [])\<rparr>)"
    by (simp add: isLicenseAllowed_def)
qed

theorem no_candidates_no_fallback_witness:
  "list_all isWhiteSpace ''  '' \<and> parseLicenseExpression ''  '' = [] \<and>
   isLicenseAllowed ''  '' [''MIT''] [''GPL-3.0-only''] =
     \<lparr>is_allowed = False, reason = Some (allowReason [])\<rparr>"
proof -
  have h: "\<forall>c\<in>set ''  ''. isWhiteSpace c" by (simp add: isWhiteSpace_def)
  with no_candidates_no_fallback [of "''  ''" "[''MIT'']" "[''GPL-3.0-only'']"]
  show ?thesis by (simp add: list_all_iff)
qed

section \<open>The allow list\<close>

text \<open>
  C8 as stated fails when a candidate is denied: with \<^verbatim>\<open>MIT\<close> in both lists the candidate
  \<^verbatim>\<open>MIT\<close> contains an entry of the non-empty allowed list and the evaluator still returns
  non-compliant, with the reason of the deny check.
\<close>

theorem allow_check_counterexample:
  "parseLicenseExpression ''MIT'' = [''MIT''] \<and> matchesAny ''MIT'' [''MIT''] \<and>
   sublist (toLowerCase ''MIT'') (toLowerCase ''MIT'') \<and>
   isLicenseAllowed ''MIT'' [''MIT''] [''MIT''] =
     \<lparr>is_allowed = False,
      reason = Some (''License '' @ [CHR 0x27] @ ''MIT'' @ [CHR 0x27] @ '' is not allowed'')\<rparr>"
  by code_simp

text \<open>
  C8, amended. When the allowed list is empty the allow check is skipped: the license is
  compliant exactly when no candidate is denied. When the allowed list is not empty and
  no candidate is denied, the evaluator returns non-compliant exactly when no candidate
  contains, case-insensitively, an entry of the allowed list, and the reason is then
  \<^verbatim>\<open>None of the licenses '<candidates>' are in the allowed list\<close>, with all candidates in
  their order, separated by a comma and a space. With empty allowed and disallowed lists
  a run that returns has no violation.
\<close>

theorem allow_list_gating:
  "(al = [] \<longrightarrow>
      is_allowed (isLicenseAllowed lic al dis) =
        (\<forall>c\<in>set (parseLicenseExpression lic). \<forall>d\<in>set dis.
           \<not> sublist (toLowerCase d) (toLowerCase c))) \<and>
   (al \<noteq> [] \<and>
    (\<forall>c\<in>set (parseLicenseExpression lic). \<forall>d\<in>set dis.
       \<not> sublist (toLowerCase d) (toLowerCase c)) \<longrightarrow>
      (\<not> is_allowed (isLicenseAllowed lic al dis)) =
        (\<forall>c\<in>set (parseLicenseExpression lic). \<forall>a\<in>set al.
           \<not> sublist (toLowerCase a) (toLowerCase c)) \<and>
      (\<not> is_allowed (isLicenseAllowed lic al dis) \<longrightarrow>
         reason (isLicenseAllowed lic al dis) =
           Some (''None of the licenses '' @ [CHR 0x27] @
                 (case parseLicenseExpression lic of
                    [] \<Rightarrow> []
                  | c # cs \<Rightarrow> c @ concat (map (\<lambda>x. '', '' @ x) cs)) @
                 [CHR 0x27] @ '' are in the allowed list''))) \<and>
   (orEmpty (allowed opts) = [] \<and> orEmpty (disallowed opts) = [] \<and>
    completion (checkLicenseCompliance ext pkgs opts) = Inr res \<longrightarrow> res = [])"
proof (intro conjI impI)
  assume "al = []"
  show "is_allowed (isLicenseAllowed lic al dis) =
          (\<forall>c\<in>set (parseLicenseExpression lic). \<forall>d\<in>set dis.
             \<not> sublist (toLowerCase d) (toLowerCase c))"
  proof (cases "\<forall>c\<in>set (parseLicenseExpression lic). \<not> matchesAny c dis")
    case True
    with \<open>al = []\<close> show ?thesis
      by (simp add: isLicenseAllowed_def checkLicenses_not_denied matchesAny_sublist)
  next
    case False
    then have "\<exists>l\<in>set (parseLicenseExpression lic). matchesAny l dis" by simp
    from checkLicenses_denied [OF this] False show ?thesis
      by (auto simp: isLicenseAllowed_def matchesAny_sublist)
  qed
next
  assume "al \<noteq> [] \<and>
    (\<forall>c\<in>set (parseLicenseExpression lic). \<forall>d\<in>set dis.
       \<not> sublist (toLowerCase d) (toLowerCase c))"
  then have a: "al \<noteq> [] \<and> (\<forall>c\<in>set (parseLicenseExpression lic). \<not> matchesAny c dis)"
    by (simp add: matchesAny_sublist)
  then show "(\<not> is_allowed (isLicenseAllowed lic al dis)) =
               (\<forall>c\<in>set (parseLicenseExpression lic). \<forall>a\<in>set al.
                  \<not> sublist (toLowerCase a) (toLowerCase c))"
    by (simp add: isLicenseAllowed_def checkLicenses_not_denied matchesAny_sublist)
  assume "\<not> is_allowed (isLicenseAllowed lic al dis)"
  with a have "reason (isLicenseAllowed lic al dis) =
                 Some (allowReason (parseLicenseExpression lic))"
    by (simp add: isLicenseAllowed_def checkLicenses_not_denied split: if_splits)
  then show "reason (isLicenseAllowed lic al dis) =
           Some (''None of the licenses '' @ [CHR 0x27] @
                 (case parseLicenseExpression lic of
                    [] \<Rightarrow> []
                  | c # cs \<Rightarrow> c @ concat (map (\<lambda>x. '', '' @ x) cs)) @
                 [CHR 0x27] @ '' are in the allowed list'')"
    by (simp only: allowReason_text)
next
  assume a: "orEmpty (allowed opts) = [] \<and> orEmpty (disallowed opts) = [] \<and>
             completion (checkLicenseCompliance ext pkgs opts) = Inr res"
  have "violationsOf ext [] [] ign pkg = []" for ign pkg
    by (cases "license pkg")
      (simp_all add: violationsOf_def isLicenseAllowed_def checkLicenses_not_denied
         matchesAny_def)
  with a checkLicenseCompliance_completion [of ext pkgs opts res] show "res = []"
    by simp
qed

theorem allow_list_gating_witness:
  "is_allowed (isLicenseAllowed ''ISC'' [] [''GPL-3.0-only'']) \<and>
   \<not> is_allowed (isLicenseAllowed ''GPL-3.0-only'' [] [''GPL-3.0-only'']) \<and>
   \<not> is_allowed (isLicenseAllowed ''ISC OR BSD-3-Clause'' [''MIT''] [''GPL-3.0-only'']) \<and>
   reason (isLicenseAllowed ''ISC OR BSD-3-Clause'' [''MIT''] [''GPL-3.0-only'']) =
     Some (''None of the licenses '' @ [CHR 0x27] @ ''ISC, BSD-3-Clause'' @ [CHR 0x27] @
           '' are in the allowed list'') \<and>
   is_allowed (isLicenseAllowed ''ISC OR MIT'' [''MIT''] [''GPL-3.0-only'']) \<and>
   completion (checkLicenseCompliance noOtherSyntax
     [\<lparr>name = ''a'', version = ''1.0.0'', license = JString ''GPL-3.0-only'', path = ''/a''\<rparr>]
     \<lparr>allowed = None, disallowed = Some [], ignores = None\<rparr>) = Inr []"
proof -
  have p1: "parseLicenseExpression ''ISC'' = [''ISC'']" by code_simp
  have p2: "parseLicenseExpression ''GPL-3.0-only'' = [''GPL-3.0-only'']" by code_simp
  have p3: "parseLicenseExpression ''ISC OR BSD-3-Clause'' = [''ISC'', ''BSD-3-Clause'']"
    by code_simp
  have p4: "parseLicenseExpression ''ISC OR MIT'' = [''ISC'', ''MIT'']" by code_simp
  have m1: "\<not> sublist (toLowerCase ''GPL-3.0-only'') (toLowerCase ''ISC'')" by code_simp
  have m2: "sublist (toLowerCase ''GPL-3.0-only'') (toLowerCase ''GPL-3.0-only'')" by code_simp
  have m3: "\<not> sublist (toLowerCase ''GPL-3.0-only'') (toLowerCase ''BSD-3-Clause'')" by code_simp
  have m4: "\<not> sublist (toLowerCase ''GPL-3.0-only'') (toLowerCase ''MIT'')" by code_simp
  have m5: "\<not> sublist (toLowerCase ''MIT'') (toLowerCase ''ISC'')" by code_simp
  have m6: "\<not> sublist (toLowerCase ''MIT'') (toLowerCase ''BSD-3-Clause'')" by code_simp
  have m7: "sublist (toLowerCase ''MIT'') (toLowerCase ''MIT'')" by code_simp
  have t: "''ISC'' @ concat (map (\<lambda>x. '', '' @ x) [''BSD-3-Clause'']) = ''ISC, BSD-3-Clause''"
    by simp
  have r: "completion (checkLicenseCompliance noOtherSyntax
     [\<lparr>name = ''a'', version = ''1.0.0'', license = JString ''GPL-3.0-only'', path = ''/a''\<rparr>]
     \<lparr>allowed = None, disallowed = Some [], ignores = None\<rparr>) = Inr []"
    by code_simp
  from allow_list_gating [where al = "[]" and lic = "''ISC''" and dis = "[''GPL-3.0-only'']"]
  have c1: "is_allowed (isLicenseAllowed ''ISC'' [] [''GPL-3.0-only''])"
    by (simp add: p1 m1)
  from allow_list_gating [where al = "[]" and lic = "''GPL-3.0-only''"
      and dis = "[''GPL-3.0-only'']"]
  have c2: "\<not> is_allowed (isLicenseAllowed ''GPL-3.0-only'' [] [''GPL-3.0-only''])"
    by (simp add: p2 m2)
  from allow_list_gating [where al = "[''MIT'']" and lic = "''ISC OR BSD-3-Clause''"
      and dis = "[''GPL-3.0-only'']"]
  have c3: "\<not> is_allowed (isLicenseAllowed ''ISC OR BSD-3-Clause'' [''MIT''] [''GPL-3.0-only'']) \<and>
     reason (isLicenseAllowed ''ISC OR BSD-3-Clause'' [''MIT''] [''GPL-3.0-only'']) =
     Some (''None of the licenses '' @ [CHR 0x27] @ ''ISC, BSD-3-Clause'' @ [CHR 0x27] @
           '' are in the allowed list'')"
    by (simp add: p3 m1 m3 m5 m6)
  from allow_list_gating [where al = "[''MIT'']" and lic = "''ISC OR MIT''"
      and dis = "[''GPL-3.0-only'']"]
  have c4: "is_allowed (isLicenseAllowed ''ISC OR MIT'' [''MIT''] [''GPL-3.0-only''])"
    by (simp add: p4 m1 m4 m5 m7)
  from c1 c2 conjunct1 [OF c3] conjunct2 [OF c3] c4 r show ?thesis by (intro conjI)
qed

section \<open>Ignored packages\<close>

text \<open>
  C6. When the name of a package matches some ignore pattern, no run that returns has a
  violation for that name, whatever the allowed list, the disallowed list and the
  licenses are. When \<^verbatim>\<open>isIgnored\<close> returns true for the package, the run is the run on the
  list without the package: the same result and the same warnings, so the license of the
  package is not looked at. Otherwise a pattern before the matching one does not
  compile, and the run throws at this package or before it.
\<close>

theorem ignored_package_is_skipped:
  assumes "pat \<in> set (orEmpty (ignores opts))"
    and "RegExp_new ext (regexSource pat) = Inr regex"
    and "RegExp_test regex (name pkg)"
  shows "(\<forall>pkgs res. completion (checkLicenseCompliance ext pkgs opts) = Inr res \<longrightarrow>
            (\<forall>v\<in>set res. package v \<noteq> name pkg)) \<and>
         (isIgnored ext (name pkg) (orEmpty (ignores opts)) = Inr True \<longrightarrow>
            (\<forall>pre post. checkLicenseCompliance ext (pre @ pkg # post) opts =
                         checkLicenseCompliance ext (pre @ post) opts)) \<and>
         (isIgnored ext (name pkg) (orEmpty (ignores opts)) \<noteq> Inr True \<longrightarrow>
            (\<forall>pre post. \<exists>e. completion (checkLicenseCompliance ext (pre @ pkg # post) opts) =
                              Inl e))"
proof (intro conjI allI impI ballI)
  fix pkgs res v
  assume r: "completion (checkLicenseCompliance ext pkgs opts) = Inr res" and v: "v \<in> set res"
  show "package v \<noteq> name pkg"
  proof
    assume eq: "package v = name pkg"
    from v have "\<exists>p::PackageInfo. isIgnored ext (name p) (orEmpty (ignores opts)) = Inr False \<and>
                   package v = name p"
      unfolding checkLicenseCompliance_violation [OF r] by force
    then obtain p :: PackageInfo
      where "isIgnored ext (name p) (orEmpty (ignores opts)) = Inr False" "package v = name p"
      by blast
    with eq have "isIgnored ext (name pkg) (orEmpty (ignores opts)) = Inr False"
      by simp
    with isIgnored_matching [OF assms] show False by simp
  qed
next
  fix pre post
  assume "isIgnored ext (name pkg) (orEmpty (ignores opts)) = Inr True"
  then show "checkLicenseCompliance ext (pre @ pkg # post) opts =
             checkLicenseCompliance ext (pre @ post) opts"
    by (simp add: checkLicenseCompliance_def checkLoop_skip del: checkLoop.simps)
next
  fix pre post
  assume "isIgnored ext (name pkg) (orEmpty (ignores opts)) \<noteq> Inr True"
  with isIgnored_matching [OF assms]
  obtain e where "isIgnored ext (name pkg) (orEmpty (ignores opts)) = Inl e"
    by (cases "isIgnored ext (name pkg) (orEmpty (ignores opts))") auto
  then show "\<exists>e. completion (checkLicenseCompliance ext (pre @ pkg # post) opts) = Inl e"
    unfolding checkLicenseCompliance_def by (rule checkLoop_throws_later)
qed

theorem ignored_package_is_skipped_witness:
  "(let pkg = \<lparr>name = ''eslint-plugin-foo'', version = ''1.0.0'', license = JString ''GPL-3.0-only'',
                 path = ''/e''\<rparr>;
        other = \<lparr>name = ''left-pad'', version = ''1.3.0'', license = JString ''WTFPL'', path = ''/l''\<rparr>;
        opts = \<lparr>allowed = Some [''MIT''], disallowed = Some [''GPL-3.0-only''],
                ignores = Some [''eslint-*'']\<rparr>;
        regex = (\<lambda>s. searchFrom
                   (Bol # map (\<lambda>c. Once (Lit c)) ''eslint-'' @ [Star AnyChar, Eol]) True s);
        res = [\<lparr>package = ''left-pad'', vlicense = ''WTFPL'', vreason = allowReason [''WTFPL'']\<rparr>]
    in ''eslint-*'' \<in> set (orEmpty (ignores opts)) \<and>
       RegExp_new noOtherSyntax (regexSource ''eslint-*'') = Inr regex \<and>
       RegExp_test regex (name pkg) \<and>
       isIgnored noOtherSyntax (name pkg) (orEmpty (ignores opts)) = Inr True \<and>
       completion (checkLicenseCompliance noOtherSyntax [pkg, other] opts) = Inr res \<and>
       list_all (\<lambda>v. package v \<noteq> name pkg) res \<and>
       checkLicenseCompliance noOtherSyntax ([] @ pkg # [other]) opts =
         checkLicenseCompliance noOtherSyntax ([] @ [other]) opts)"
proof -
  define pkg where "pkg = \<lparr>name = ''eslint-plugin-foo'', version = ''1.0.0'',
    license = JString ''GPL-3.0-only'', path = ''/e''\<rparr>"
  define other where
    "other = \<lparr>name = ''left-pad'', version = ''1.3.0'', license = JString ''WTFPL'', path = ''/l''\<rparr>"
  define opts where "opts = \<lparr>allowed = Some [''MIT''], disallowed = Some [''GPL-3.0-only''],
    ignores = Some [''eslint-*'']\<rparr>"
  define regex :: regexp where
    "regex = (\<lambda>s. searchFrom
                (Bol # map (\<lambda>c. Once (Lit c)) ''eslint-'' @ [Star AnyChar, Eol]) True s)"
  define res where
    "res = [\<lparr>package = ''left-pad'', vlicense = ''WTFPL'', vreason = allowReason [''WTFPL'']\<rparr>]"
  have h1: "''eslint-*'' \<in> set (orEmpty (ignores opts))"
    by (simp add: opts_def orEmpty_def)
  have "parseTerms (regexSource ''eslint-*'') =
          Inr (Bol # map (\<lambda>c. Once (Lit c)) ''eslint-'' @ [Star AnyChar, Eol])"
    by code_simp
  then have h2: "RegExp_new noOtherSyntax (regexSource ''eslint-*'') = Inr regex"
    by (simp add: RegExp_new_def regex_def)
  have h3: "RegExp_test regex (name pkg)"
    unfolding regex_def pkg_def by code_simp
  have h4: "isIgnored noOtherSyntax (name pkg) (orEmpty (ignores opts)) = Inr True"
    unfolding pkg_def opts_def by code_simp
  have h5: "completion (checkLicenseCompliance noOtherSyntax [pkg, other] opts) = Inr res"
    unfolding pkg_def other_def opts_def res_def by code_simp
  note skipped = ignored_package_is_skipped [OF h1 h2 h3]
  from skipped h5 have "\<forall>v\<in>set res. package v \<noteq> name pkg" by blast
  then have c1: "list_all (\<lambda>v. package v \<noteq> name pkg) res" by (simp only: list_all_iff)
  from skipped h4
  have "\<forall>pre post. checkLicenseCompliance noOtherSyntax (pre @ pkg # post) opts =
                    checkLicenseCompliance noOtherSyntax (pre @ post) opts"
    by blast
  then have c2: "checkLicenseCompliance noOtherSyntax ([] @ pkg # [other]) opts =
                 checkLicenseCompliance noOtherSyntax ([] @ [other]) opts"
    by (rule allE) (erule allE)
  from h1 h2 h3 h4 h5 c1 c2 show ?thesis
    unfolding Let_def pkg_def [symmetric] other_def [symmetric] opts_def [symmetric]
      regex_def [symmetric] res_def [symmetric]
    by blast
qed

section \<open>The sentinel of an unknown license\<close>



section \<open>The shape of the result\<close>

text \<open>
  C9. In a run that returns, the violations are those of a subsequence \<open>qs\<close> of the
  packages: one violation for each package of \<open>qs\<close>, in the order of the input, each with
  the name and the raw license of its package. So there is at most one violation for
  each package of the input.
\<close>

theorem violations_follow_packages:
  "completion (checkLicenseCompliance ext pkgs opts) = Inr res \<Longrightarrow>
   \<exists>qs. subseq qs pkgs \<and> map package res = map name qs \<and> map (\<lambda>v. JString (vlicense v)) res = map license qs"
proof -
  assume "completion (checkLicenseCompliance ext pkgs opts) = Inr res"
  then have "res = concat (map (violationsOf ext (orEmpty (allowed opts))
                     (orEmpty (disallowed opts)) (orEmpty (ignores opts))) pkgs)"
    by (rule checkLicenseCompliance_completion)
  then show ?thesis by (simp only: violations_subseq)
qed

theorem violations_follow_packages_witness:
  "(let pkgs = [\<lparr>name = ''a'', version = ''1.0.0'', license = JString ''MIT'', path = ''/a''\<rparr>,
                \<lparr>name = ''b'', version = ''1.0.0'', license = JString ''GPL-3.0-only'', path = ''/b''\<rparr>,
                \<lparr>name = ''c'', version = ''1.0.0'', license = JString ''UNKNOWN'', path = ''/c''\<rparr>,
                \<lparr>name = ''d'', version = ''1.0.0'', license = JString ''ISC OR GPL-3.0-only'', path = ''/d''\<rparr>];
        opts = \<lparr>allowed = None, disallowed = Some [''GPL-3.0-only''], ignores = None\<rparr>;
        res = [\<lparr>package = ''b'', vlicense = ''GPL-3.0-only'', vreason = denyReason ''GPL-3.0-only''\<rparr>,
               \<lparr>package = ''d'', vlicense = ''ISC OR GPL-3.0-only'',
                vreason = denyReason ''GPL-3.0-only''\<rparr>]
    in completion (checkLicenseCompliance noOtherSyntax pkgs opts) = Inr res \<and>
       (\<exists>qs. subseq qs pkgs \<and> map package res = map name qs \<and>
             map (\<lambda>v. JString (vlicense v)) res = map license qs))"
proof -
  define pkgs where
    "pkgs = [\<lparr>name = ''a'', version = ''1.0.0'', license = JString ''MIT'', path = ''/a''\<rparr>,
             \<lparr>name = ''b'', version = ''1.0.0'', license = JString ''GPL-3.0-only'', path = ''/b''\<rparr>,
             \<lparr>name = ''c'', version = ''1.0.0'', license = JString ''UNKNOWN'', path = ''/c''\<rparr>,
             \<lparr>name = ''d'', version = ''1.0.0'', license = JString ''ISC OR GPL-3.0-only'', path = ''/d''\<rparr>]"
  define opts where
    "opts = \<lparr>allowed = None, disallowed = Some [''GPL-3.0-only''], ignores = None\<rparr>"
  define res where
    "res = [\<lparr>package = ''b'', vlicense = ''GPL-3.0-only'', vreason = denyReason ''GPL-3.0-only''\<rparr>,
            \<lparr>package = ''d'', vlicense = ''ISC OR GPL-3.0-only'',
             vreason = denyReason ''GPL-3.0-only''\<rparr>]"
  have h: "completion (checkLicenseCompliance noOtherSyntax pkgs opts) = Inr res"
    unfolding pkgs_def opts_def res_def by code_simp
  from violations_follow_packages [OF h] h show ?thesis
    unfolding Let_def pkgs_def [symmetric] opts_def [symmetric] res_def [symmetric]
    by blast
qed

section \<open>Runs that throw\<close>

text \<open>
  C5 as stated fails. The ignore pattern \<^verbatim>\<open>c++\<close> becomes the source \<^verbatim>\<open>^c++$\<close>, whose second
  \<^verbatim>\<open>+\<close> has nothing to repeat, and the run ends with the \<open>SyntaxError\<close> of the constructor at
  the first package; the options are well formed, three arrays of strings, and the source
  is invalid for every engine (\<open>plus_patterns_do_not_compile\<close>). And with no ignore pattern
  at all, a package whose license is not a string ends the run with a \<open>TypeError\<close>, after
  the packages before it have been checked.
\<close>

theorem invalid_pattern_counterexample:
  "checkLicenseCompliance noOtherSyntax
     [\<lparr>name = ''a'', version = ''1.0.0'', license = JString ''MIT'', path = ''/a''\<rparr>]
     \<lparr>allowed = Some [], disallowed = Some [], ignores = Some [''c++'']\<rparr> =
   \<lparr>console = [], completion = Inl SyntaxError\<rparr> \<and>
   checkLicenseCompliance noOtherSyntax
     [\<lparr>name = ''u'', version = ''1.0.0'', license = JString ''UNKNOWN'', path = ''/u''\<rparr>,
      \<lparr>name = ''b'', version = ''1.0.0'', license = NonString, path = ''/b''\<rparr>]
     \<lparr>allowed = Some [], disallowed = Some [], ignores = Some []\<rparr> =
   \<lparr>console = [''u: No license information found''], completion = Inl TypeError\<rparr>"
  by code_simp

text \<open>
  C5, amended. The engine validates nothing before the loop. A run returns exactly when
  every package either is ignored, or is not ignored and has a string as its license; so
  it returns whenever every ignore pattern compiles to a regular expression and every
  license is a string, and always on the empty list of packages. Otherwise it throws
  from inside the loop, at the first package \<open>pkg\<close> that is neither: the failure of the
  \<^verbatim>\<open>RegExp\<close> constructor when the test of its name throws, and a \<open>TypeError\<close> when the
  package is not ignored and its license is not a string. The test of a name \<open>n\<close> throws
  exactly when some pattern does not compile and every pattern before it compiles and
  does not match \<open>n\<close>. When the first pattern does not compile, a run on a non-empty list
  throws at the first package, before any warning.
\<close>

theorem check_returns_when_patterns_compile:
  "((\<exists>res. completion (checkLicenseCompliance ext pkgs opts) = Inr res) \<longleftrightarrow>
      (\<forall>p\<in>set pkgs.
         isIgnored ext (name p) (orEmpty (ignores opts)) = Inr True \<or>
         isIgnored ext (name p) (orEmpty (ignores opts)) = Inr False \<and>
         (\<exists>lic. license p = JString lic))) \<and>
   ((\<forall>pat\<in>set (orEmpty (ignores opts)). \<exists>regex. RegExp_new ext (regexSource pat) = Inr regex) \<and>
    (\<forall>p\<in>set pkgs. \<exists>lic. license p = JString lic) \<longrightarrow>
      (\<exists>res. completion (checkLicenseCompliance ext pkgs opts) = Inr res)) \<and>
   checkLicenseCompliance ext [] opts = \<lparr>console = [], completion = Inr []\<rparr> \<and>
   (\<forall>pre pkg post.
      pkgs = pre @ pkg # post \<and>
      (\<forall>p\<in>set pre.
         isIgnored ext (name p) (orEmpty (ignores opts)) = Inr True \<or>
         isIgnored ext (name p) (orEmpty (ignores opts)) = Inr False \<and>
         (\<exists>lic. license p = JString lic)) \<longrightarrow>
      (\<forall>e. isIgnored ext (name pkg) (orEmpty (ignores opts)) = Inl e \<longrightarrow>
           completion (checkLicenseCompliance ext pkgs opts) = Inl e) \<and>
      (isIgnored ext (name pkg) (orEmpty (ignores opts)) = Inr False \<and>
       license pkg = NonString \<longrightarrow>
           completion (checkLicenseCompliance ext pkgs opts) = Inl TypeError)) \<and>
   (\<forall>n e. isIgnored ext n pats = Inl e \<longleftrightarrow>
      (\<exists>pre p post. pats = pre @ p # post \<and> RegExp_new ext (regexSource p) = Inl e \<and>
         (\<forall>q\<in>set pre. \<exists>r. RegExp_new ext (regexSource q) = Inr r \<and> \<not> RegExp_test r n))) \<and>
   (ignores opts = Some (pat # pats) \<and> RegExp_new ext (regexSource pat) = Inl SyntaxError \<and>
    pkgs \<noteq> [] \<longrightarrow>
      checkLicenseCompliance ext pkgs opts = \<lparr>console = [], completion = Inl SyntaxError\<rparr>)"
proof (intro conjI)
  show "(\<exists>res. completion (checkLicenseCompliance ext pkgs opts) = Inr res) \<longleftrightarrow>
      (\<forall>p\<in>set pkgs.
         isIgnored ext (name p) (orEmpty (ignores opts)) = Inr True \<or>
         isIgnored ext (name p) (orEmpty (ignores opts)) = Inr False \<and>
         (\<exists>lic. license p = JString lic))"
    unfolding checkLicenseCompliance_def checkLoop_returns_iff passes_iff ..
next
  show "(\<forall>pat\<in>set (orEmpty (ignores opts)). \<exists>regex. RegExp_new ext (regexSource pat) = Inr regex) \<and>
    (\<forall>p\<in>set pkgs. \<exists>lic. license p = JString lic) \<longrightarrow>
      (\<exists>res. completion (checkLicenseCompliance ext pkgs opts) = Inr res)"
  proof
    assume a: "(\<forall>pat\<in>set (orEmpty (ignores opts)).
                  \<exists>regex. RegExp_new ext (regexSource pat) = Inr regex) \<and>
               (\<forall>p\<in>set pkgs. \<exists>lic. license p = JString lic)"
    have "passes ext (orEmpty (ignores opts)) p" if "p \<in> set pkgs" for p
    proof -
      from a have "\<exists>b. isIgnored ext (name p) (orEmpty (ignores opts)) = Inr b"
        by (simp add: isIgnored_compiles)
      then obtain b where "isIgnored ext (name p) (orEmpty (ignores opts)) = Inr b" ..
      moreover from a that have "\<exists>lic. license p = JString lic" by simp
      ultimately show ?thesis by (cases b) (simp_all add: passes_iff)
    qed
    then show "\<exists>res. completion (checkLicenseCompliance ext pkgs opts) = Inr res"
      unfolding checkLicenseCompliance_def checkLoop_returns_iff by simp
  qed
next
  show "checkLicenseCompliance ext [] opts = \<lparr>console = [], completion = Inr []\<rparr>"
    by (simp add: checkLicenseCompliance_def)
next
  show "\<forall>pre pkg post.
      pkgs = pre @ pkg # post \<and>
      (\<forall>p\<in>set pre.
         isIgnored ext (name p) (orEmpty (ignores opts)) = Inr True \<or>
         isIgnored ext (name p) (orEmpty (ignores opts)) = Inr False \<and>
         (\<exists>lic. license p = JString lic)) \<longrightarrow>
      (\<forall>e. isIgnored ext (name pkg) (orEmpty (ignores opts)) = Inl e \<longrightarrow>
           completion (checkLicenseCompliance ext pkgs opts) = Inl e) \<and>
      (isIgnored ext (name pkg) (orEmpty (ignores opts)) = Inr False \<and>
       license pkg = NonString \<longrightarrow>
           completion (checkLicenseCompliance ext pkgs opts) = Inl TypeError)"
  proof (intro allI impI conjI)
    fix pre pkg post e
    assume a: "pkgs = pre @ pkg # post \<and>
      (\<forall>p\<in>set pre.
         isIgnored ext (name p) (orEmpty (ignores opts)) = Inr True \<or>
         isIgnored ext (name p) (orEmpty (ignores opts)) = Inr False \<and>
         (\<exists>lic. license p = JString lic))"
    then have pre: "\<forall>p\<in>set pre. passes ext (orEmpty (ignores opts)) p"
      by (simp add: passes_iff)
    {
      assume e: "isIgnored ext (name pkg) (orEmpty (ignores opts)) = Inl e"
      then have "\<not> passes ext (orEmpty (ignores opts)) pkg" by (simp add: passes_def)
      from checkLoop_first_stop [OF pre this] a e
      show "completion (checkLicenseCompliance ext pkgs opts) = Inl e"
        by (simp add: checkLicenseCompliance_def del: checkLoop.simps)
    }
    {
      assume n: "isIgnored ext (name pkg) (orEmpty (ignores opts)) = Inr False \<and>
                 license pkg = NonString"
      then have "\<not> passes ext (orEmpty (ignores opts)) pkg" by (simp add: passes_def)
      from checkLoop_first_stop [OF pre this] a n
      show "completion (checkLicenseCompliance ext pkgs opts) = Inl TypeError"
        by (simp add: checkLicenseCompliance_def del: checkLoop.simps)
    }
  qed
next
  show "\<forall>n e. isIgnored ext n pats = Inl e \<longleftrightarrow>
      (\<exists>pre p post. pats = pre @ p # post \<and> RegExp_new ext (regexSource p) = Inl e \<and>
         (\<forall>q\<in>set pre. \<exists>r. RegExp_new ext (regexSource q) = Inr r \<and> \<not> RegExp_test r n))"
    by (intro allI) (rule isIgnored_Inl_iff)
next
  show "ignores opts = Some (pat # pats) \<and> RegExp_new ext (regexSource pat) = Inl SyntaxError \<and>
    pkgs \<noteq> [] \<longrightarrow>
      checkLicenseCompliance ext pkgs opts = \<lparr>console = [], completion = Inl SyntaxError\<rparr>"
  proof
    assume a: "ignores opts = Some (pat # pats) \<and>
               RegExp_new ext (regexSource pat) = Inl SyntaxError \<and> pkgs \<noteq> []"
    then obtain pkg rest where pkgs: "pkgs = pkg # rest" by (cases pkgs) auto
    from a have "isIgnored ext (name pkg) (orEmpty (ignores opts)) = Inl SyntaxError"
      by (simp add: orEmpty_def)
    with pkgs show "checkLicenseCompliance ext pkgs opts =
        \<lparr>console = [], completion = Inl SyntaxError\<rparr>"
      by (simp add: checkLicenseCompliance_def)
  qed
qed

theorem check_returns_when_patterns_compile_witness:
  "(let a = \<lparr>name = ''a'', version = ''1.0.0'', license = JString ''MIT'', path = ''/a''\<rparr>;
        b = \<lparr>name = ''b'', version = ''1.0.0'', license = NonString, path = ''/b''\<rparr>;
        t = \<lparr>name = ''@types/node'', version = ''1.0.0'', license = NonString, path = ''/t''\<rparr>;
        good = \<lparr>allowed = None, disallowed = None, ignores = Some [''@types/*'']\<rparr>;
        bad = \<lparr>allowed = None, disallowed = None, ignores = Some [''@types/*'', ''+'']\<rparr>;
        first = \<lparr>allowed = None, disallowed = None, ignores = Some [''+'', ''@types/*'']\<rparr>
    in list_all (\<lambda>pat. \<exists>regex. RegExp_new noOtherSyntax (regexSource pat) = Inr regex)
         (orEmpty (ignores good)) \<and>
       list_all (\<lambda>p. \<exists>lic. license p = JString lic) [a] \<and>
       (\<exists>res. completion (checkLicenseCompliance noOtherSyntax [a] good) = Inr res) \<and>
       list_all (\<lambda>p. isIgnored noOtherSyntax (name p) (orEmpty (ignores good)) = Inr True \<or>
                      isIgnored noOtherSyntax (name p) (orEmpty (ignores good)) = Inr False \<and>
                      (\<exists>lic. license p = JString lic)) [t, a] \<and>
       (\<exists>res. completion (checkLicenseCompliance noOtherSyntax [t, a] good) = Inr res) \<and>
       isIgnored noOtherSyntax ''a'' [''@types/*'', ''+''] = Inl SyntaxError \<and>
       completion (checkLicenseCompliance noOtherSyntax [t, a, b] bad) = Inl SyntaxError \<and>
       isIgnored noOtherSyntax (name b) (orEmpty (ignores good)) = Inr False \<and>
       license b = NonString \<and>
       completion (checkLicenseCompliance noOtherSyntax [t, a, b] good) = Inl TypeError \<and>
       (\<nexists>res. completion (checkLicenseCompliance noOtherSyntax [t, a, b] good) = Inr res) \<and>
       checkLicenseCompliance noOtherSyntax [a] first =
         \<lparr>console = [], completion = Inl SyntaxError\<rparr>)"
proof -
  define a where
    "a = \<lparr>name = ''a'', version = ''1.0.0'', license = JString ''MIT'', path = ''/a''\<rparr>"
  define b where
    "b = \<lparr>name = ''b'', version = ''1.0.0'', license = NonString, path = ''/b''\<rparr>"
  define t where
    "t = \<lparr>name = ''@types/node'', version = ''1.0.0'', license = NonString, path = ''/t''\<rparr>"
  define good where
    "good = \<lparr>allowed = None, disallowed = None, ignores = Some [''@types/*'']\<rparr>"
  define bad where
    "bad = \<lparr>allowed = None, disallowed = None, ignores = Some [''@types/*'', ''+'']\<rparr>"
  define first where
    "first = \<lparr>allowed = None, disallowed = None, ignores = Some [''+'', ''@types/*'']\<rparr>"
  define regex :: regexp where
    "regex = (\<lambda>s. searchFrom
                (Bol # map (\<lambda>c. Once (Lit c)) ''@types/'' @ [Star AnyChar, Eol]) True s)"
  have "parseTerms (regexSource ''@types/*'') =
          Inr (Bol # map (\<lambda>c. Once (Lit c)) ''@types/'' @ [Star AnyChar, Eol])"
    by code_simp
  then have rx: "RegExp_new noOtherSyntax (regexSource ''@types/*'') = Inr regex"
    by (simp add: RegExp_new_def regex_def)
  have nm: "\<not> RegExp_test regex ''a''"
    unfolding regex_def by code_simp
  have plus: "RegExp_new noOtherSyntax (regexSource ''+'') = Inl SyntaxError"
    by (rule plus_patterns_do_not_compile)
  have og: "orEmpty (ignores good) = [''@types/*'']" by (simp add: good_def orEmpty_def)
  have ob: "orEmpty (ignores bad) = [''@types/*'', ''+'']" by (simp add: bad_def orEmpty_def)
  have it: "isIgnored noOtherSyntax (name t) [''@types/*''] = Inr True"
    unfolding t_def by code_simp
  have ia: "isIgnored noOtherSyntax (name a) [''@types/*''] = Inr False"
    unfolding a_def by code_simp
  have ib: "isIgnored noOtherSyntax (name b) [''@types/*''] = Inr False"
    unfolding b_def by code_simp
  have it': "isIgnored noOtherSyntax (name t) [''@types/*'', ''+''] = Inr True"
    unfolding t_def by code_simp
  have la: "license a = JString ''MIT''" by (simp add: a_def)
  have lb: "license b = NonString" by (simp add: b_def)
  have na: "name a = ''a''" by (simp add: a_def)

  have h1: "\<forall>pat\<in>set (orEmpty (ignores good)).
              \<exists>regex. RegExp_new noOtherSyntax (regexSource pat) = Inr regex"
    using rx by (simp add: og)
  have h2: "\<forall>p\<in>set [a]. \<exists>lic. license p = JString lic"
    by (simp add: la)
  note g1 = check_returns_when_patterns_compile
    [where ext = noOtherSyntax and pkgs = "[a]" and opts = good]
  from g1 have "(\<forall>pat\<in>set (orEmpty (ignores good)).
        \<exists>regex. RegExp_new noOtherSyntax (regexSource pat) = Inr regex) \<and>
      (\<forall>p\<in>set [a]. \<exists>lic. license p = JString lic) \<longrightarrow>
      (\<exists>res. completion (checkLicenseCompliance noOtherSyntax [a] good) = Inr res)"
    by (rule conjunct2 [THEN conjunct1])
  from this conjI [OF h1 h2]
  have c1: "\<exists>res. completion (checkLicenseCompliance noOtherSyntax [a] good) = Inr res"
    by (rule mp)

  have h3: "\<forall>p\<in>set [t, a].
              isIgnored noOtherSyntax (name p) (orEmpty (ignores good)) = Inr True \<or>
              isIgnored noOtherSyntax (name p) (orEmpty (ignores good)) = Inr False \<and>
              (\<exists>lic. license p = JString lic)"
    by (simp add: og it ia la del: isIgnored.simps)
  note g2 = check_returns_when_patterns_compile
    [where ext = noOtherSyntax and pkgs = "[t, a]" and opts = good]
  from g2 have "(\<exists>res. completion (checkLicenseCompliance noOtherSyntax [t, a] good) = Inr res) \<longleftrightarrow>
      (\<forall>p\<in>set [t, a].
         isIgnored noOtherSyntax (name p) (orEmpty (ignores good)) = Inr True \<or>
         isIgnored noOtherSyntax (name p) (orEmpty (ignores good)) = Inr False \<and>
         (\<exists>lic. license p = JString lic))"
    by (rule conjunct1)
  from this h3
  have c2: "\<exists>res. completion (checkLicenseCompliance noOtherSyntax [t, a] good) = Inr res"
    by (rule iffD2)

  note g3 = check_returns_when_patterns_compile
    [where ext = noOtherSyntax and pkgs = "[t, a, b]" and opts = bad
       and pats = "[''@types/*'', ''+'']"]
  have "\<exists>r. RegExp_new noOtherSyntax (regexSource ''@types/*'') = Inr r \<and> \<not> RegExp_test r ''a''"
    by (rule exI [of _ regex]) (rule conjI [OF rx nm])
  then have "\<forall>q\<in>set [''@types/*''].
      \<exists>r. RegExp_new noOtherSyntax (regexSource q) = Inr r \<and> \<not> RegExp_test r ''a''"
    by simp
  with plus have k: "[''@types/*'', ''+''] = [''@types/*''] @ ''+'' # [] \<and>
      RegExp_new noOtherSyntax (regexSource ''+'') = Inl SyntaxError \<and>
      (\<forall>q\<in>set [''@types/*''].
         \<exists>r. RegExp_new noOtherSyntax (regexSource q) = Inr r \<and> \<not> RegExp_test r ''a'')"
    by simp
  have k': "\<exists>pre p post. [''@types/*'', ''+''] = pre @ p # post \<and>
      RegExp_new noOtherSyntax (regexSource p) = Inl SyntaxError \<and>
      (\<forall>q\<in>set pre.
         \<exists>r. RegExp_new noOtherSyntax (regexSource q) = Inr r \<and> \<not> RegExp_test r ''a'')"
    by (rule exI [of _ "[''@types/*'']"], rule exI [of _ "''+''"], rule exI [of _ "[]"])
      (rule k)
  from g3 have "\<forall>n e. isIgnored noOtherSyntax n [''@types/*'', ''+''] = Inl e \<longleftrightarrow>
      (\<exists>pre p post. [''@types/*'', ''+''] = pre @ p # post \<and>
         RegExp_new noOtherSyntax (regexSource p) = Inl e \<and>
         (\<forall>q\<in>set pre.
            \<exists>r. RegExp_new noOtherSyntax (regexSource q) = Inr r \<and> \<not> RegExp_test r n))"
    by (rule conjunct2 [THEN conjunct2, THEN conjunct2, THEN conjunct2, THEN conjunct1])
  then have "isIgnored noOtherSyntax ''a'' [''@types/*'', ''+''] = Inl SyntaxError \<longleftrightarrow>
      (\<exists>pre p post. [''@types/*'', ''+''] = pre @ p # post \<and>
         RegExp_new noOtherSyntax (regexSource p) = Inl SyntaxError \<and>
         (\<forall>q\<in>set pre.
            \<exists>r. RegExp_new noOtherSyntax (regexSource q) = Inr r \<and> \<not> RegExp_test r ''a''))"
    by (elim allE)
  from this k'
  have c3: "isIgnored noOtherSyntax ''a'' [''@types/*'', ''+''] = Inl SyntaxError"
    by (rule iffD2)
  then have c3': "isIgnored noOtherSyntax (name a) (orEmpty (ignores bad)) = Inl SyntaxError"
    by (simp only: na ob)

  have p4: "[t, a, b] = [t] @ a # [b] \<and>
      (\<forall>p\<in>set [t].
         isIgnored noOtherSyntax (name p) (orEmpty (ignores bad)) = Inr True \<or>
         isIgnored noOtherSyntax (name p) (orEmpty (ignores bad)) = Inr False \<and>
         (\<exists>lic. license p = JString lic))"
    by (simp add: ob it' del: isIgnored.simps)
  from g3 have "\<forall>pre pkg post.
      [t, a, b] = pre @ pkg # post \<and>
      (\<forall>p\<in>set pre.
         isIgnored noOtherSyntax (name p) (orEmpty (ignores bad)) = Inr True \<or>
         isIgnored noOtherSyntax (name p) (orEmpty (ignores bad)) = Inr False \<and>
         (\<exists>lic. license p = JString lic)) \<longrightarrow>
      (\<forall>e. isIgnored noOtherSyntax (name pkg) (orEmpty (ignores bad)) = Inl e \<longrightarrow>
           completion (checkLicenseCompliance noOtherSyntax [t, a, b] bad) = Inl e) \<and>
      (isIgnored noOtherSyntax (name pkg) (orEmpty (ignores bad)) = Inr False \<and>
       license pkg = NonString \<longrightarrow>
           completion (checkLicenseCompliance noOtherSyntax [t, a, b] bad) = Inl TypeError)"
    by (rule conjunct2 [THEN conjunct2, THEN conjunct2, THEN conjunct1])
  then have "[t, a, b] = [t] @ a # [b] \<and>
      (\<forall>p\<in>set [t].
         isIgnored noOtherSyntax (name p) (orEmpty (ignores bad)) = Inr True \<or>
         isIgnored noOtherSyntax (name p) (orEmpty (ignores bad)) = Inr False \<and>
         (\<exists>lic. license p = JString lic)) \<longrightarrow>
      (\<forall>e. isIgnored noOtherSyntax (name a) (orEmpty (ignores bad)) = Inl e \<longrightarrow>
           completion (checkLicenseCompliance noOtherSyntax [t, a, b] bad) = Inl e) \<and>
      (isIgnored noOtherSyntax (name a) (orEmpty (ignores bad)) = Inr False \<and>
       license a = NonString \<longrightarrow>
           completion (checkLicenseCompliance noOtherSyntax [t, a, b] bad) = Inl TypeError)"
    by (elim allE)
  from this p4
  have "(\<forall>e. isIgnored noOtherSyntax (name a) (orEmpty (ignores bad)) = Inl e \<longrightarrow>
           completion (checkLicenseCompliance noOtherSyntax [t, a, b] bad) = Inl e) \<and>
      (isIgnored noOtherSyntax (name a) (orEmpty (ignores bad)) = Inr False \<and>
       license a = NonString \<longrightarrow>
           completion (checkLicenseCompliance noOtherSyntax [t, a, b] bad) = Inl TypeError)"
    by (rule mp)
  then have "\<forall>e. isIgnored noOtherSyntax (name a) (orEmpty (ignores bad)) = Inl e \<longrightarrow>
           completion (checkLicenseCompliance noOtherSyntax [t, a, b] bad) = Inl e"
    by (rule conjunct1)
  then have "isIgnored noOtherSyntax (name a) (orEmpty (ignores bad)) = Inl SyntaxError \<longrightarrow>
           completion (checkLicenseCompliance noOtherSyntax [t, a, b] bad) = Inl SyntaxError"
    by (rule spec)
  from this c3'
  have c4: "completion (checkLicenseCompliance noOtherSyntax [t, a, b] bad) = Inl SyntaxError"
    by (rule mp)

  note g5 = check_returns_when_patterns_compile
    [where ext = noOtherSyntax and pkgs = "[t, a, b]" and opts = good]
  have h5: "isIgnored noOtherSyntax (name b) (orEmpty (ignores good)) = Inr False \<and>
            license b = NonString"
    by (simp add: og ib lb del: isIgnored.simps)
  have p5: "[t, a, b] = [t, a] @ b # [] \<and>
      (\<forall>p\<in>set [t, a].
         isIgnored noOtherSyntax (name p) (orEmpty (ignores good)) = Inr True \<or>
         isIgnored noOtherSyntax (name p) (orEmpty (ignores good)) = Inr False \<and>
         (\<exists>lic. license p = JString lic))"
    using h3 by simp
  from g5 have "\<forall>pre pkg post.
      [t, a, b] = pre @ pkg # post \<and>
      (\<forall>p\<in>set pre.
         isIgnored noOtherSyntax (name p) (orEmpty (ignores good)) = Inr True \<or>
         isIgnored noOtherSyntax (name p) (orEmpty (ignores good)) = Inr False \<and>
         (\<exists>lic. license p = JString lic)) \<longrightarrow>
      (\<forall>e. isIgnored noOtherSyntax (name pkg) (orEmpty (ignores good)) = Inl e \<longrightarrow>
           completion (checkLicenseCompliance noOtherSyntax [t, a, b] good) = Inl e) \<and>
      (isIgnored noOtherSyntax (name pkg) (orEmpty (ignores good)) = Inr False \<and>
       license pkg = NonString \<longrightarrow>
           completion (checkLicenseCompliance noOtherSyntax [t, a, b] good) = Inl TypeError)"
    by (rule conjunct2 [THEN conjunct2, THEN conjunct2, THEN conjunct1])
  then have "[t, a, b] = [t, a] @ b # [] \<and>
      (\<forall>p\<in>set [t, a].
         isIgnored noOtherSyntax (name p) (orEmpty (ignores good)) = Inr True \<or>
         isIgnored noOtherSyntax (name p) (orEmpty (ignores good)) = Inr False \<and>
         (\<exists>lic. license p = JString lic)) \<longrightarrow>
      (\<forall>e. isIgnored noOtherSyntax (name b) (orEmpty (ignores good)) = Inl e \<longrightarrow>
           completion (checkLicenseCompliance noOtherSyntax [t, a, b] good) = Inl e) \<and>
      (isIgnored noOtherSyntax (name b) (orEmpty (ignores good)) = Inr False \<and>
       license b = NonString \<longrightarrow>
           completion (checkLicenseCompliance noOtherSyntax [t, a, b] good) = Inl TypeError)"
    by (elim allE)
  from this p5
  have "(\<forall>e. isIgnored noOtherSyntax (name b) (orEmpty (ignores good)) = Inl e \<longrightarrow>
           completion (checkLicenseCompliance noOtherSyntax [t, a, b] good) = Inl e) \<and>
      (isIgnored noOtherSyntax (name b) (orEmpty (ignores good)) = Inr False \<and>
       license b = NonString \<longrightarrow>
           completion (checkLicenseCompliance noOtherSyntax [t, a, b] good) = Inl TypeError)"
    by (rule mp)
  then have "isIgnored noOtherSyntax (name b) (orEmpty (ignores good)) = Inr False \<and>
       license b = NonString \<longrightarrow>
           completion (checkLicenseCompliance noOtherSyntax [t, a, b] good) = Inl TypeError"
    by (rule conjunct2)
  from this h5
  have c5: "completion (checkLicenseCompliance noOtherSyntax [t, a, b] good) = Inl TypeError"
    by (rule mp)
  then have c6: "\<nexists>res. completion (checkLicenseCompliance noOtherSyntax [t, a, b] good) = Inr res"
    by simp

  note g7 = check_returns_when_patterns_compile
    [where ext = noOtherSyntax and pkgs = "[a]" and opts = first and pat = "''+''"
       and pats = "[''@types/*'']"]
  have h7: "ignores first = Some (''+'' # [''@types/*'']) \<and>
            RegExp_new noOtherSyntax (regexSource ''+'') = Inl SyntaxError \<and> [a] \<noteq> []"
    using plus by (simp add: first_def)
  from g7 have "ignores first = Some (''+'' # [''@types/*'']) \<and>
      RegExp_new noOtherSyntax (regexSource ''+'') = Inl SyntaxError \<and> [a] \<noteq> [] \<longrightarrow>
      checkLicenseCompliance noOtherSyntax [a] first =
        \<lparr>console = [], completion = Inl SyntaxError\<rparr>"
    by (rule conjunct2 [THEN conjunct2, THEN conjunct2, THEN conjunct2, THEN conjunct2])
  from this h7
  have c7: "checkLicenseCompliance noOtherSyntax [a] first =
              \<lparr>console = [], completion = Inl SyntaxError\<rparr>"
    by (rule mp)

  from h1 have h1': "list_all (\<lambda>pat. \<exists>regex. RegExp_new noOtherSyntax (regexSource pat) = Inr regex)
      (orEmpty (ignores good))"
    by (simp only: list_all_iff)
  from h2 have h2': "list_all (\<lambda>p. \<exists>lic. license p = JString lic) [a]"
    by (simp only: list_all_iff)
  from h3 have h3': "list_all
      (\<lambda>p. isIgnored noOtherSyntax (name p) (orEmpty (ignores good)) = Inr True \<or>
            isIgnored noOtherSyntax (name p) (orEmpty (ignores good)) = Inr False \<and>
            (\<exists>lic. license p = JString lic)) [t, a]"
    by (simp only: list_all_iff)
  from h1' h2' c1 h3' c2 c3 c4 conjunct1 [OF h5] conjunct2 [OF h5] c5 c6 c7 show ?thesis
    unfolding Let_def a_def [symmetric] b_def [symmetric] t_def [symmetric]
      good_def [symmetric] bad_def [symmetric] first_def [symmetric]
    by (intro conjI)
qed

end
